theory Spec2Isabelle
  imports Main
begin

text \<open>
  The logic of the survey application: how the survey page walks through the questions,
  validates and stores the answers (\<^verbatim>\<open>src/app/survey/[slug]/page.tsx\<close>), how the results
  page reads them back for its charts and its CSV export (\<^verbatim>\<open>src/unnamed/part_000\<close>), and
  how the editor validates a survey and derives its slug
  (\<^verbatim>\<open>src/app/admin/dashboard/create/page.tsx\<close>). React state is a record that every
  handler takes and returns; the data-access client is a pair of tables and the replies it
  gives; an exception is a value of a sum or option type.
\<close>

section \<open>JavaScript values and objects\<close>

text \<open>
  The answer buffer of the survey page is a \<^verbatim>\<open>Record<string, any>\<close>. The values modelled
  are the ones the page and its storage schema deal with: strings (every input control of
  the page reports a string), arrays of strings (the shape \<^verbatim>\<open>responseSchema\<close> gives
  \<^verbatim>\<open>answer_choice\<close>), and the two empty values \<^verbatim>\<open>null\<close> and \<^verbatim>\<open>undefined\<close> that the
  required-field checks test for. Characters are 8-bit code units here; the slug generator
  of the survey editor, whose case conversion depends on the characters beyond them, is
  modelled on sequences of UTF-16 code units.
\<close>

datatype jsval = JUndefined | JNull | JString string | JArray "string list"

fun typeof :: "jsval \<Rightarrow> string" where
  "typeof JUndefined = ''undefined''"
| "typeof JNull = ''object''"
| "typeof (JString s) = ''string''"
| "typeof (JArray xs) = ''object''"

fun isArray :: "jsval \<Rightarrow> bool" where
  "isArray (JArray xs) = True"
| "isArray v = False"

text \<open>Truthiness of a nullable string column: \<^verbatim>\<open>null\<close> and \<^verbatim>\<open>''\<close> are falsy.\<close>

fun truthy_text :: "string option \<Rightarrow> bool" where
  "truthy_text None = False"
| "truthy_text (Some s) = (s \<noteq> [])"

text \<open>\<^verbatim>\<open>Array.prototype.join\<close> on an array of strings.\<close>

fun join :: "string \<Rightarrow> string list \<Rightarrow> string" where
  "join sep [] = []"
| "join sep [x] = x"
| "join sep (x # y # ys) = x @ sep @ join sep (y # ys)"

text \<open>
  An object with string keys is the list of its own properties in creation order, keys
  distinct. Reading a missing property gives \<^verbatim>\<open>undefined\<close>; assignment keeps the place of
  an existing key and appends a new one. The properties inherited from
  \<^verbatim>\<open>Object.prototype\<close> are not part of the list: the keys of the answer buffer are the
  question ids of the store.
\<close>

type_synonym 'v obj = "(string \<times> 'v) list"

fun obj_get :: "jsval obj \<Rightarrow> string \<Rightarrow> jsval" where
  "obj_get [] k = JUndefined"
| "obj_get ((k', v) # ps) k = (if k' = k then v else obj_get ps k)"

fun obj_set :: "'v obj \<Rightarrow> string \<Rightarrow> 'v \<Rightarrow> 'v obj" where
  "obj_set [] k v = [(k, v)]"
| "obj_set ((k', v') # ps) k v = (if k' = k then (k, v) # ps else (k', v') # obj_set ps k v)"

fun obj_delete :: "'v obj \<Rightarrow> string \<Rightarrow> 'v obj" where
  "obj_delete [] k = []"
| "obj_delete ((k', v') # ps) k = (if k' = k then obj_delete ps k else (k', v') # obj_delete ps k)"

text \<open>
  \<^verbatim>\<open>Object.entries\<close> (and object spread) enumerate the keys that are array indices first,
  in ascending numeric order, and then the other keys in creation order. An array index is
  the canonical decimal form of an integer below \<open>2^32 - 1\<close>.
\<close>

definition charCode :: "char \<Rightarrow> nat" where
  "charCode c = of_char c"

definition is_digit :: "char \<Rightarrow> bool" where
  "is_digit c = (48 \<le> charCode c \<and> charCode c \<le> 57)"

definition digit_value :: "char \<Rightarrow> nat" where
  "digit_value c = charCode c - 48"

definition decimal_value :: "string \<Rightarrow> nat" where
  "decimal_value s = foldl (\<lambda>n c. 10 * n + digit_value c) 0 s"

definition is_array_index :: "string \<Rightarrow> bool" where
  "is_array_index k =
     (k \<noteq> [] \<and> list_all is_digit k \<and> (hd k = CHR ''0'' \<longrightarrow> length k = 1)
      \<and> length k \<le> 10 \<and> decimal_value k < 4294967295)"

definition Object_entries :: "'v obj \<Rightarrow> (string \<times> 'v) list" where
  "Object_entries ob =
     sort_key (\<lambda>(k, v). decimal_value k) (filter (\<lambda>(k, v). is_array_index k) ob)
     @ filter (\<lambda>(k, v). \<not> is_array_index k) ob"

section \<open>JSON text\<close>

text \<open>
  \<^verbatim>\<open>JSON.stringify\<close> on the values above. Strings are quoted as ECMAScript's
  QuoteJSONString does: the double quote and the backslash are escaped, the control
  characters below 0x20 get their short escape or \<^verbatim>\<open>\u00XX\<close>, every other character is
  copied. \<^verbatim>\<open>JSON.stringify(undefined)\<close> is \<^verbatim>\<open>undefined\<close>, here \<open>None\<close>.
\<close>

definition dquote :: char where
  "dquote = CHR 0x22"

definition backslash :: char where
  "backslash = CHR 0x5C"

definition hex_digit :: "nat \<Rightarrow> char" where
  "hex_digit n = (if n < 10 then char_of (48 + n) else char_of (87 + n))"

definition escape_char :: "char \<Rightarrow> string" where
  "escape_char c =
     (if c = CHR 0x08 then [backslash, CHR ''b'']
      else if c = CHR 0x09 then [backslash, CHR ''t'']
      else if c = CHR 0x0A then [backslash, CHR ''n'']
      else if c = CHR 0x0C then [backslash, CHR ''f'']
      else if c = CHR 0x0D then [backslash, CHR ''r'']
      else if c = dquote then [backslash, dquote]
      else if c = backslash then [backslash, backslash]
      else if charCode c < 32
        then [backslash, CHR ''u'', CHR ''0'', CHR ''0'',
              hex_digit (charCode c div 16), hex_digit (charCode c mod 16)]
      else [c])"

definition QuoteJSONString :: "string \<Rightarrow> string" where
  "QuoteJSONString s = dquote # concat (map escape_char s) @ [dquote]"

fun JSON_stringify :: "jsval \<Rightarrow> string option" where
  "JSON_stringify JUndefined = None"
| "JSON_stringify JNull = Some ''null''"
| "JSON_stringify (JString s) = Some (QuoteJSONString s)"
| "JSON_stringify (JArray xs) =
     Some (CHR ''['' # join '','' (map QuoteJSONString xs) @ '']'')"

text \<open>
  \<^verbatim>\<open>JSON.parse\<close> on the same fragment of JSON: \<^verbatim>\<open>null\<close>, a string, or an array of strings,
  with JSON's white space allowed around every token. The result \<open>None\<close> stands for the
  \<^verbatim>\<open>SyntaxError\<close> that \<^verbatim>\<open>JSON.parse\<close> throws, and also for the documents left out of this
  model (numbers, booleans, objects, arrays with other elements than strings, and
  \<^verbatim>\<open>\u\<close> escapes above 0xFF).
\<close>

definition is_json_ws :: "char \<Rightarrow> bool" where
  "is_json_ws c = (c = CHR 0x20 \<or> c = CHR 0x09 \<or> c = CHR 0x0A \<or> c = CHR 0x0D)"

definition skip_ws :: "string \<Rightarrow> string" where
  "skip_ws s = dropWhile is_json_ws s"

definition hex_value :: "char \<Rightarrow> nat option" where
  "hex_value c =
     (if 48 \<le> charCode c \<and> charCode c \<le> 57 then Some (charCode c - 48)
      else if 97 \<le> charCode c \<and> charCode c \<le> 102 then Some (charCode c - 87)
      else if 65 \<le> charCode c \<and> charCode c \<le> 70 then Some (charCode c - 55)
      else None)"

definition unescape_char :: "char \<Rightarrow> char option" where
  "unescape_char e =
     (if e = dquote then Some dquote
      else if e = backslash then Some backslash
      else if e = CHR ''/'' then Some (CHR ''/'')
      else if e = CHR ''b'' then Some (CHR 0x08)
      else if e = CHR ''f'' then Some (CHR 0x0C)
      else if e = CHR ''n'' then Some (CHR 0x0A)
      else if e = CHR ''r'' then Some (CHR 0x0D)
      else if e = CHR ''t'' then Some (CHR 0x09)
      else None)"

definition unicode_escape :: "char \<Rightarrow> char \<Rightarrow> char \<Rightarrow> char \<Rightarrow> char option" where
  "unicode_escape h1 h2 h3 h4 =
     (case (hex_value h1, hex_value h2, hex_value h3, hex_value h4) of
        (Some a, Some b, Some c, Some d) \<Rightarrow>
          (if ((a * 16 + b) * 16 + c) * 16 + d < 256
           then Some (char_of (((a * 16 + b) * 16 + c) * 16 + d)) else None)
      | _ \<Rightarrow> None)"

definition cons_char :: "char \<Rightarrow> (string \<times> string) option \<Rightarrow> (string \<times> string) option" where
  "cons_char c r = (case r of None \<Rightarrow> None | Some (s, rest) \<Rightarrow> Some (c # s, rest))"

text \<open>The characters of a string literal after its opening quote, and the text left.\<close>

fun parse_string_chars :: "string \<Rightarrow> (string \<times> string) option" where
  "parse_string_chars [] = None"
| "parse_string_chars (c # cs) =
     (if c = dquote then Some ([], cs)
      else if c = backslash then
        (case cs of
           [] \<Rightarrow> None
         | e # r \<Rightarrow>
            (if e = CHR ''u'' then
               (case r of
                  h1 # h2 # h3 # h4 # r' \<Rightarrow>
                    (case unicode_escape h1 h2 h3 h4 of
                       None \<Rightarrow> None
                     | Some ch \<Rightarrow> cons_char ch (parse_string_chars r'))
                | _ \<Rightarrow> None)
             else
               (case unescape_char e of
                  None \<Rightarrow> None
                | Some ch \<Rightarrow> cons_char ch (parse_string_chars r))))
      else if charCode c < 32 then None
      else cons_char c (parse_string_chars cs))"

lemma parse_string_chars_shorter:
  "parse_string_chars cs = Some (s, rest) \<Longrightarrow> length rest < length cs"
proof (induction cs arbitrary: s rest rule: parse_string_chars.induct)
  case 1
  then show ?case by simp
next
  case (2 c cs)
  show ?case
  proof (cases "c = dquote")
    case True
    with "2.prems" show ?thesis by simp
  next
    case nq: False
    show ?thesis
    proof (cases "c = backslash")
      case False
      with nq "2.prems" "2.IH"(3) show ?thesis
        by (fastforce simp: cons_char_def split: if_splits option.splits)
    next
      case bs: True
      show ?thesis
      proof (cases cs)
        case Nil
        with nq bs "2.prems" show ?thesis by simp
      next
        case (Cons e r)
        show ?thesis
        proof (cases "e = CHR ''u''")
          case False
          with nq bs Cons "2.prems" "2.IH"(2) show ?thesis
            by (fastforce simp: cons_char_def split: option.splits)
        next
          case True
          with nq bs Cons "2.prems" "2.IH"(1) show ?thesis
            by (fastforce simp: cons_char_def split: option.splits list.splits)
        qed
      qed
    qed
  qed
qed

lemma skip_ws_length: "length (skip_ws s) \<le> length s"
  by (simp add: skip_ws_def length_dropWhile_le)

text \<open>
  The elements of a non-empty array, from its first string literal up to the closing
  bracket, and the text left.
\<close>

function parse_elements :: "string \<Rightarrow> (string list \<times> string) option" where
  "parse_elements cs =
     (case cs of
        [] \<Rightarrow> None
      | q # cs1 \<Rightarrow>
         (if q = dquote then
            (case parse_string_chars cs1 of
               None \<Rightarrow> None
             | Some (s, rest) \<Rightarrow>
                (case skip_ws rest of
                   [] \<Rightarrow> None
                 | c # rest' \<Rightarrow>
                    (if c = CHR '','' then
                       (case parse_elements (skip_ws rest') of
                          None \<Rightarrow> None
                        | Some (xs, rest'') \<Rightarrow> Some (s # xs, rest''))
                     else if c = CHR '']'' then Some ([s], rest')
                     else None)))
          else None))"
  by pat_completeness auto
termination
proof (relation "measure length", goal_cases)
  case 1
  show ?case by simp
next
  case (2 cs q cs1 p s rest c rest')
  from 2 have "parse_string_chars cs1 = Some (s, rest)"
    by simp
  then have "length rest < length cs1"
    by (rule parse_string_chars_shorter)
  moreover have "length (skip_ws rest) \<le> length rest"
    by (rule skip_ws_length)
  moreover have "length (skip_ws rest') \<le> length rest'"
    by (rule skip_ws_length)
  ultimately show ?case using 2 by simp
qed

declare parse_elements.simps [simp del]

definition at_end :: "string \<Rightarrow> bool" where
  "at_end rest = (skip_ws rest = [])"

definition JSON_parse :: "string \<Rightarrow> jsval option" where
  "JSON_parse text =
     (case skip_ws text of
        [] \<Rightarrow> None
      | c # r \<Rightarrow>
         (if c = dquote then
            (case parse_string_chars r of
               None \<Rightarrow> None
             | Some (s, rest) \<Rightarrow> if at_end rest then Some (JString s) else None)
          else if c = CHR ''['' then
            (case skip_ws r of
               [] \<Rightarrow> None
             | b # r' \<Rightarrow>
                (if b = CHR '']'' then (if at_end r' then Some (JArray []) else None)
                 else
                   (case parse_elements (b # r') of
                      None \<Rightarrow> None
                    | Some (xs, rest) \<Rightarrow> if at_end rest then Some (JArray xs) else None)))
          else if take 4 (c # r) = ''null'' \<and> at_end (drop 4 (c # r)) then Some JNull
          else None))"

subsection \<open>Parsing what was serialised\<close>

lemma hex_value_digit: "k < 16 \<Longrightarrow> hex_value (hex_digit k) = Some k"
  by (auto simp: hex_value_def hex_digit_def charCode_def)

lemma unicode_escape_control:
  assumes lt: "charCode c < 32"
  shows "unicode_escape (CHR ''0'') (CHR ''0'')
           (hex_digit (charCode c div 16)) (hex_digit (charCode c mod 16)) = Some c"
proof -
  have hi: "hex_value (hex_digit (charCode c div 16)) = Some (charCode c div 16)"
    using lt by (intro hex_value_digit) simp
  have lo: "hex_value (hex_digit (charCode c mod 16)) = Some (charCode c mod 16)"
    by (intro hex_value_digit) simp
  have zero: "hex_value (CHR ''0'') = Some 0"
    by (simp add: hex_value_def charCode_def)
  have "char_of (charCode c) = c"
    by (simp add: charCode_def)
  then show ?thesis
    using lt by (simp add: unicode_escape_def hi lo zero)
qed

lemma parse_escape_char:
  "parse_string_chars (escape_char c @ rest) = cons_char c (parse_string_chars rest)"
proof -
  have ne: "backslash \<noteq> dquote" "CHR ''u'' \<noteq> dquote" "CHR ''u'' \<noteq> backslash"
    by (simp_all add: backslash_def dquote_def)
  consider (short) "c \<in> {CHR 0x08, CHR 0x09, CHR 0x0A, CHR 0x0C, CHR 0x0D, dquote, backslash}"
    | (ctrl) "c \<notin> {CHR 0x08, CHR 0x09, CHR 0x0A, CHR 0x0C, CHR 0x0D, dquote, backslash}"
        "charCode c < 32"
    | (plain) "c \<notin> {CHR 0x08, CHR 0x09, CHR 0x0A, CHR 0x0C, CHR 0x0D, dquote, backslash}"
        "\<not> charCode c < 32"
    by blast
  then show ?thesis
  proof cases
    case short
    then show ?thesis
      by (auto simp: escape_char_def unescape_char_def dquote_def backslash_def)
  next
    case ctrl
    then have "escape_char c = [backslash, CHR ''u'', CHR ''0'', CHR ''0'',
                 hex_digit (charCode c div 16), hex_digit (charCode c mod 16)]"
      by (simp add: escape_char_def)
    then show ?thesis
      using ctrl(2) by (simp add: ne unicode_escape_control)
  next
    case plain
    then show ?thesis
      by (simp add: escape_char_def)
  qed
qed

lemma parse_quoted_chars:
  "parse_string_chars (concat (map escape_char s) @ dquote # rest) = Some (s, rest)"
  by (induction s) (simp_all add: parse_escape_char cons_char_def)

lemma QuoteJSONString_append:
  "QuoteJSONString s @ rest = dquote # concat (map escape_char s) @ dquote # rest"
  by (simp add: QuoteJSONString_def)

lemma skip_ws_token: "\<not> is_json_ws c \<Longrightarrow> skip_ws (c # cs) = c # cs"
  by (simp add: skip_ws_def)

lemma skip_ws_Nil: "skip_ws [] = []"
  by (simp add: skip_ws_def)

lemma token_not_ws:
  "\<not> is_json_ws dquote" "\<not> is_json_ws (CHR '','')" "\<not> is_json_ws (CHR '']'')"
  "\<not> is_json_ws (CHR ''['')" "\<not> is_json_ws (CHR ''n'')"
  by (simp_all add: is_json_ws_def dquote_def)

lemmas json_ws_simps = skip_ws_token skip_ws_Nil token_not_ws

lemma dquote_tokens:
  "dquote \<noteq> CHR ''[''" "dquote \<noteq> CHR '']''" "dquote \<noteq> CHR '',''" "dquote \<noteq> backslash"
  by (simp_all add: dquote_def backslash_def)

lemma parse_elements_join:
  "xs \<noteq> [] \<Longrightarrow>
   parse_elements (join '','' (map QuoteJSONString xs) @ CHR '']'' # rest) = Some (xs, rest)"
proof (induction "'',''" xs rule: join.induct[case_names Nil One More])
  case Nil
  then show ?case by simp
next
  case (One x)
  show ?case
    by (subst parse_elements.simps)
      (simp add: QuoteJSONString_append parse_quoted_chars json_ws_simps)
next
  case (More x y ys)
  then have IH: "parse_elements (join '','' (QuoteJSONString y # map QuoteJSONString ys) @ CHR '']'' # rest)
      = Some (y # ys, rest)"
    by simp
  have nws: "skip_ws (join '','' (QuoteJSONString y # map QuoteJSONString ys) @ CHR '']'' # rest)
      = join '','' (QuoteJSONString y # map QuoteJSONString ys) @ CHR '']'' # rest"
    by (cases ys) (simp_all add: QuoteJSONString_def json_ws_simps)
  show ?case
    by (subst parse_elements.simps)
      (simp add: QuoteJSONString_append parse_quoted_chars IH nws json_ws_simps)
qed

lemma JSON_parse_stringify_array:
  "\<exists>text. JSON_stringify (JArray xs) = Some text \<and> JSON_parse text = Some (JArray xs)"
proof (cases xs)
  case Nil
  then show ?thesis
    by (simp add: JSON_parse_def at_end_def json_ws_simps dquote_def)
next
  case (Cons x ys)
  have elems: "parse_elements (join '','' (map QuoteJSONString xs) @ '']'') = Some (xs, [])"
    using parse_elements_join[of xs "[]"] Cons by simp
  obtain r where r: "join '','' (map QuoteJSONString xs) = dquote # r"
    using Cons by (cases ys) (simp_all add: QuoteJSONString_def)
  have "JSON_parse (CHR ''['' # (dquote # r) @ '']'') = Some (JArray xs)"
    using elems unfolding r
    by (simp add: JSON_parse_def at_end_def json_ws_simps dquote_tokens dquote_tokens[symmetric])
  then show ?thesis
    by (simp add: r)
qed

lemma JSON_parse_stringify_string:
  "\<exists>text. JSON_stringify (JString s) = Some text \<and> JSON_parse text = Some (JString s)"
  using parse_quoted_chars[of s "[]"]
  by (simp add: JSON_parse_def at_end_def QuoteJSONString_def json_ws_simps)

lemma JSON_parse_null: "JSON_parse ''null'' = Some JNull"
  by (simp add: JSON_parse_def at_end_def json_ws_simps dquote_def)

text \<open>Every value that has a JSON text is parsed back from it.\<close>

lemma JSON_parse_stringify:
  "JSON_stringify v = Some js \<Longrightarrow> JSON_parse js = Some v"
proof (cases v)
  case JUndefined
  then show "JSON_stringify v = Some js \<Longrightarrow> JSON_parse js = Some v" by simp
next
  case JNull
  then show "JSON_stringify v = Some js \<Longrightarrow> JSON_parse js = Some v"
    using JSON_parse_null by auto
next
  case (JString s)
  then show "JSON_stringify v = Some js \<Longrightarrow> JSON_parse js = Some v"
    using JSON_parse_stringify_string[of s] by auto
next
  case (JArray xs)
  then show "JSON_stringify v = Some js \<Longrightarrow> JSON_parse js = Some v"
    using JSON_parse_stringify_array[of xs] by auto
qed

section \<open>Data model\<close>

text \<open>The rows of \<^verbatim>\<open>database.types.ts\<close>, with the columns the code below reads or writes.\<close>

datatype question_type = multiple_choice | short_answer | long_answer | likert_scale | file_upload

datatype survey_status = draft | active | closed

record question =
  q_id :: string
  question_text :: string
  question_type :: question_type
  options :: "string option"
  order_index :: int
  required :: bool

record survey_with_questions =
  s_id :: string
  title :: string
  slug :: string
  status :: survey_status
  questions :: "question list"

record answer_row =
  response_id :: string
  question_id :: string
  answer_text :: "string option"
  answer_choice :: "string option"

record response_row =
  r_id :: string
  survey_id :: string
  participant_id :: "string option"
  submitted_at :: string

record response_with_answers = response_row +
  r_answers :: "answer_row list"

section \<open>The survey page\<close>

text \<open>The React state of \<^verbatim>\<open>SurveyPage\<close> in \<^verbatim>\<open>src/app/survey/[slug]/page.tsx\<close>.\<close>

record page_state =
  survey :: "survey_with_questions option"
  currentQuestionIndex :: int
  answers :: "jsval obj"
  isLoading :: bool
  isSubmitting :: bool
  error :: "string option"

datatype js_error = TypeError

text \<open>\<^verbatim>\<open>xs[i]\<close>: \<^verbatim>\<open>undefined\<close>, here \<open>None\<close>, outside the array.\<close>

definition at_index :: "'a list \<Rightarrow> int \<Rightarrow> 'a option" where
  "at_index xs i = (if 0 \<le> i \<and> i < int (length xs) then Some (xs ! nat i) else None)"

text \<open>
  \<^verbatim>\<open>setAnswers(prev => ({...prev, [questionId]: value}))\<close>: the spread copies the
  properties of \<^verbatim>\<open>prev\<close> in enumeration order, then the key is assigned.
\<close>

definition handleAnswerChange :: "string \<Rightarrow> jsval \<Rightarrow> page_state \<Rightarrow> page_state" where
  "handleAnswerChange questionId v s =
     s\<lparr>answers := obj_set (Object_entries (answers s)) questionId v\<rparr>"

text \<open>
  The change handlers that \<^verbatim>\<open>renderQuestion\<close> attaches to the control of a question. The
  argument is what the control reports: the text typed (\<^verbatim>\<open>e.target.value\<close>), the value of
  the radio item selected, or the name of the file chosen. In every branch it is a string.
\<close>

definition onChange :: "question \<Rightarrow> string \<Rightarrow> page_state \<Rightarrow> page_state" where
  "onChange q input s =
     (case question_type q of
        short_answer \<Rightarrow> handleAnswerChange (q_id q) (JString input) s
      | long_answer \<Rightarrow> handleAnswerChange (q_id q) (JString input) s
      | multiple_choice \<Rightarrow> handleAnswerChange (q_id q) (JString input) s
      | likert_scale \<Rightarrow> handleAnswerChange (q_id q) (JString input) s
      | file_upload \<Rightarrow> handleAnswerChange (q_id q) (JString input) s)"

text \<open>
  \<^verbatim>\<open>validateCurrentQuestion\<close>. Reading \<^verbatim>\<open>.required\<close> of a question that does not exist
  throws a \<^verbatim>\<open>TypeError\<close>.
\<close>

definition validateCurrentQuestion :: "page_state \<Rightarrow> js_error + bool" where
  "validateCurrentQuestion s =
     (case survey s of
        None \<Rightarrow> Inr False
      | Some sv \<Rightarrow>
         (case at_index (questions sv) (currentQuestionIndex s) of
            None \<Rightarrow> Inl TypeError
          | Some currentQuestion \<Rightarrow>
             (if \<not> required currentQuestion then Inr True
              else
                (let answer = obj_get (answers s) (q_id currentQuestion)
                 in Inr (answer \<noteq> JUndefined \<and> answer \<noteq> JString [] \<and> answer \<noteq> JNull)))))"

definition nextQuestion :: "page_state \<Rightarrow> js_error + page_state" where
  "nextQuestion s =
     (case validateCurrentQuestion s of
        Inl e \<Rightarrow> Inl e
      | Inr valid \<Rightarrow>
         (if \<not> valid
          then Inr (s\<lparr>error := Some ''Please answer this required question before continuing''\<rparr>)
          else Inr (s\<lparr>error := None, currentQuestionIndex := currentQuestionIndex s + 1\<rparr>)))"

definition previousQuestion :: "page_state \<Rightarrow> page_state" where
  "previousQuestion s = s\<lparr>error := None, currentQuestionIndex := currentQuestionIndex s - 1\<rparr>"

text \<open>
  The navigation buttons of the page. While the survey is loading or missing the page
  shows a card without them. \<^verbatim>\<open>Previous\<close> is rendered with
  \<^verbatim>\<open>disabled={currentQuestionIndex === 0}\<close>; \<^verbatim>\<open>Next\<close> is rendered only when
  \<^verbatim>\<open>isLastQuestion\<close> is false (the \<^verbatim>\<open>Submit Survey\<close> button takes its place on the last
  question).
\<close>

datatype button = Previous | Next

definition isLastQuestion :: "survey_with_questions \<Rightarrow> page_state \<Rightarrow> bool" where
  "isLastQuestion sv s = (currentQuestionIndex s = int (length (questions sv)) - 1)"

definition clickable :: "page_state \<Rightarrow> button \<Rightarrow> bool" where
  "clickable s b =
     (if isLoading s then False
      else
        (case survey s of
           None \<Rightarrow> False
         | Some sv \<Rightarrow>
            (case b of
               Previous \<Rightarrow> currentQuestionIndex s \<noteq> 0
             | Next \<Rightarrow> \<not> isLastQuestion sv s)))"

text \<open>A click runs the button's handler; on a button that is disabled or not shown it does nothing.\<close>

definition click :: "button \<Rightarrow> page_state \<Rightarrow> js_error + page_state" where
  "click b s =
     (if \<not> clickable s b then Inr s
      else (case b of Previous \<Rightarrow> Inr (previousQuestion s) | Next \<Rightarrow> nextQuestion s))"

fun clicks :: "button list \<Rightarrow> page_state \<Rightarrow> js_error + page_state" where
  "clicks [] s = Inr s"
| "clicks (b # bs) s = (case click b s of Inl e \<Rightarrow> Inl e | Inr s' \<Rightarrow> clicks bs s')"

subsection \<open>Submission\<close>

text \<open>
  The two tables that \<^verbatim>\<open>submitSurvey\<close> writes, and what the data-access client answers
  to its two inserts: \<^verbatim>\<open>{data, error}\<close> with one of the two set. The identifier and the
  time stamp of a new response row are chosen by the store.
\<close>

record database =
  db_responses :: "response_row list"
  db_answers :: "answer_row list"

datatype 'a reply = Rejected string | Accepted 'a

record backend =
  response_insert :: "(string \<times> string) reply"
  answers_insert :: "unit reply"

text \<open>The required questions without an answer, over all questions of the survey.\<close>

definition missingRequired :: "survey_with_questions \<Rightarrow> jsval obj \<Rightarrow> question list" where
  "missingRequired sv ans =
     filter (\<lambda>q. required q \<and>
               (obj_get ans (q_id q) = JUndefined \<or> obj_get ans (q_id q) = JString []
                \<or> obj_get ans (q_id q) = JNull))
       (questions sv)"

text \<open>
  The rows built from \<^verbatim>\<open>Object.entries(answers)\<close>:
  \<^verbatim>\<open>answer_text: typeof answer === 'string' ? answer : null\<close> and
  \<^verbatim>\<open>answer_choice: typeof answer === 'object' ? JSON.stringify(answer) : null\<close>.
\<close>

definition answersToInsert :: "string \<Rightarrow> jsval obj \<Rightarrow> answer_row list" where
  "answersToInsert rid ans =
     map (\<lambda>(questionId, answer).
            \<lparr>response_id = rid,
             question_id = questionId,
             answer_text = (case answer of JString t \<Rightarrow> Some t | _ \<Rightarrow> None),
             answer_choice = (if typeof answer = ''object'' then JSON_stringify answer else None)\<rparr>)
       (Object_entries ans)"

text \<open>\<^verbatim>\<open>err.message || 'Failed to submit survey'\<close>\<close>

definition failure_message :: "string \<Rightarrow> string" where
  "failure_message msg = (if msg = [] then ''Failed to submit survey'' else msg)"

text \<open>
  \<^verbatim>\<open>submitSurvey\<close> returns the page state, the tables, and the route it navigates to, if
  any.
\<close>

definition submitSurvey ::
  "backend \<Rightarrow> page_state \<Rightarrow> database \<Rightarrow> page_state \<times> database \<times> string option" where
  "submitSurvey be s db =
     (case survey s of
        None \<Rightarrow> (s, db, None)
      | Some sv \<Rightarrow>
         (if length (missingRequired sv (answers s)) > 0
          then (s\<lparr>error := Some (''Please answer all required questions: ''
                     @ join '', '' (map question_text (missingRequired sv (answers s))))\<rparr>,
                db, None)
          else
            (case response_insert be of
               Rejected msg \<Rightarrow>
                 (s\<lparr>isSubmitting := False, error := Some (failure_message msg)\<rparr>, db, None)
             | Accepted (rid, now) \<Rightarrow>
                (let response = \<lparr>r_id = rid, survey_id = s_id sv, participant_id = None,
                                 submitted_at = now\<rparr>;
                     db1 = db\<lparr>db_responses := db_responses db @ [response]\<rparr>
                 in (case answers_insert be of
                       Rejected msg \<Rightarrow>
                         (s\<lparr>isSubmitting := False, error := Some (failure_message msg)\<rparr>,
                          db1, None)
                     | Accepted u \<Rightarrow>
                         (s\<lparr>isSubmitting := False, error := None\<rparr>,
                          db1\<lparr>db_answers := db_answers db1 @ answersToInsert rid (answers s)\<rparr>,
                          Some ''/survey/thank-you''))))))"

subsection \<open>Facts about lists and objects\<close>

lemma those_map_Some:
  "those (map f xs) = Some ys \<Longrightarrow>
   length ys = length xs \<and> (\<forall>i < length xs. f (xs ! i) = Some (ys ! i))"
proof (induction xs arbitrary: ys)
  case Nil
  then show ?case by simp
next
  case (Cons x xs)
  then obtain y ys' where y: "f x = Some y" "those (map f xs) = Some ys'" "ys = y # ys'"
    by (auto split: option.splits)
  from Cons.IH[OF y(2)] y(1,3) show ?case
    by (auto simp: nth_Cons split: nat.splits)
qed

lemma obj_get_obj_set: "obj_get (obj_set ob k v) k' = (if k' = k then v else obj_get ob k')"
  by (induction ob) auto

lemma obj_get_obj_delete:
  "obj_get (obj_delete ob k) k' = (if k' = k then JUndefined else obj_get ob k')"
  by (induction ob) auto

lemma obj_get_missing: "k \<notin> fst ` set ob \<Longrightarrow> obj_get ob k = JUndefined"
  by (induction ob) auto

lemma length_Object_entries: "length (Object_entries ob) = length ob"
proof -
  have "length (filter (\<lambda>(k, v). is_array_index k) ob)
      + length (filter (\<lambda>(k, v). \<not> is_array_index k) ob) = length ob"
    using sum_length_filter_compl[of "\<lambda>(k, v). is_array_index k" ob]
    by (simp add: case_prod_unfold)
  then show ?thesis
    by (simp add: Object_entries_def)
qed

lemma set_Object_entries: "set (Object_entries ob) = set ob"
  by (auto simp: Object_entries_def)

subsection \<open>An example survey\<close>

definition colour_question :: question where
  "colour_question =
     \<lparr>q_id = ''q1'', question_text = ''Favourite colour?'', question_type = multiple_choice,
      options = Some ''[\"Red\",\"Blue\"]'', order_index = 0, required = True\<rparr>"

definition name_question :: question where
  "name_question =
     \<lparr>q_id = ''q2'', question_text = ''Your name'', question_type = short_answer,
      options = None, order_index = 1, required = True\<rparr>"

definition comment_question :: question where
  "comment_question =
     \<lparr>q_id = ''q3'', question_text = ''Comments'', question_type = long_answer,
      options = None, order_index = 2, required = False\<rparr>"

definition example_survey :: survey_with_questions where
  "example_survey =
     \<lparr>s_id = ''s1'', title = ''Example'', slug = ''example'', status = active,
      questions = [colour_question, name_question, comment_question]\<rparr>"

definition ready_page :: page_state where
  "ready_page =
     \<lparr>survey = Some example_survey, currentQuestionIndex = 0, answers = [],
      isLoading = False, isSubmitting = False, error = None\<rparr>"

definition empty_database :: database where
  "empty_database = \<lparr>db_responses = [], db_answers = []\<rparr>"

definition accepting_backend :: backend where
  "accepting_backend =
     \<lparr>response_insert = Accepted (''r1'', ''2024-05-01T10:00:00Z''), answers_insert = Accepted ()\<rparr>"

lemmas example_defs =
  colour_question_def name_question_def comment_question_def example_survey_def
  ready_page_def empty_database_def accepting_backend_def

lemmas page_defs =
  handleAnswerChange_def onChange_def validateCurrentQuestion_def nextQuestion_def
  previousQuestion_def at_index_def

lemmas entries_defs =
  Object_entries_def is_array_index_def is_digit_def decimal_value_def digit_value_def
  charCode_def

section \<open>Properties of the survey page\<close>

subsection \<open>Encoding of answers\<close>

text \<open>
  C1, as stated, fails: the radio group of a \<^verbatim>\<open>multiple_choice\<close> question records the
  selected option as a string, and \<^verbatim>\<open>submitSurvey\<close> stores a string in \<^verbatim>\<open>answer_text\<close>
  and leaves \<^verbatim>\<open>answer_choice\<close> null.
\<close>

theorem choice_answer_stored_as_text:
  "question_type colour_question = multiple_choice
   \<and> answersToInsert ''r1'' (answers (onChange colour_question ''Red'' ready_page))
       = [\<lparr>response_id = ''r1'', question_id = ''q1'',
           answer_text = Some ''Red'', answer_choice = None\<rparr>]"
  by (simp add: example_defs page_defs answersToInsert_def entries_defs)

text \<open>
  C1, amended: the encoding at submit time follows the run-time type of the buffered
  value; the question is not consulted. There is one row per buffer entry, in enumeration
  order. A string is stored raw in \<^verbatim>\<open>answer_text\<close> with \<^verbatim>\<open>answer_choice\<close> null. An array is
  stored as its JSON text in \<^verbatim>\<open>answer_choice\<close> with \<^verbatim>\<open>answer_text\<close> null, and so is
  \<^verbatim>\<open>null\<close>, whose \<^verbatim>\<open>typeof\<close> is \<^verbatim>\<open>'object'\<close>. So for every value other than
  \<^verbatim>\<open>undefined\<close> exactly one of the two columns is populated.
\<close>

theorem encoding_follows_value_type:
  assumes "i < length (Object_entries ans)"
    and "Object_entries ans ! i = (k, v)"
    and "row = answersToInsert rid ans ! i"
  shows "length (answersToInsert rid ans) = length ans
    \<and> response_id row = rid \<and> question_id row = k
    \<and> (case v of
          JString t \<Rightarrow> answer_text row = Some t \<and> answer_choice row = None
        | JArray xs \<Rightarrow> answer_text row = None \<and> answer_choice row = JSON_stringify (JArray xs)
            \<and> (\<exists>text. answer_choice row = Some text \<and> JSON_parse text = Some (JArray xs))
        | JNull \<Rightarrow> answer_text row = None \<and> answer_choice row = Some ''null''
        | JUndefined \<Rightarrow> answer_text row = None \<and> answer_choice row = None)
    \<and> (v \<noteq> JUndefined \<longrightarrow> (answer_text row = None) \<noteq> (answer_choice row = None))"
proof -
  have len: "length (answersToInsert rid ans) = length ans"
    by (simp add: answersToInsert_def length_Object_entries)
  have row: "row = \<lparr>response_id = rid, question_id = k,
      answer_text = (case v of JString t \<Rightarrow> Some t | _ \<Rightarrow> None),
      answer_choice = (if typeof v = ''object'' then JSON_stringify v else None)\<rparr>"
    using assms by (simp add: answersToInsert_def)
  show ?thesis
  proof (cases v)
    case (JArray xs)
    with row len JSON_parse_stringify_array[of xs] show ?thesis by auto
  qed (use row len in auto)
qed

theorem encoding_follows_value_type_witness:
  "answersToInsert ''r1'' [(''q1'', JArray [''Red'', ''Blue'']), (''q2'', JString ''Ann'')]
     = [\<lparr>response_id = ''r1'', question_id = ''q1'', answer_text = None,
         answer_choice = Some ''[\"Red\",\"Blue\"]''\<rparr>,
        \<lparr>response_id = ''r1'', question_id = ''q2'', answer_text = Some ''Ann'',
         answer_choice = None\<rparr>]
   \<and> JSON_parse ''[\"Red\",\"Blue\"]'' = Some (JArray [''Red'', ''Blue''])"
proof -
  let ?ans = "[(''q1'', JArray [''Red'', ''Blue'']), (''q2'', JString ''Ann'')]"
  have entries: "Object_entries ?ans = ?ans"
    by (simp add: entries_defs)
  have rows: "answersToInsert ''r1'' ?ans
     = [\<lparr>response_id = ''r1'', question_id = ''q1'', answer_text = None,
         answer_choice = Some ''[\"Red\",\"Blue\"]''\<rparr>,
        \<lparr>response_id = ''r1'', question_id = ''q2'', answer_text = Some ''Ann'',
         answer_choice = None\<rparr>]"
    by (simp add: answersToInsert_def entries QuoteJSONString_def escape_char_def
        dquote_def backslash_def charCode_def)
  have h1: "0 < length (Object_entries ?ans)"
    by (simp add: entries)
  have h2: "Object_entries ?ans ! 0 = (''q1'', JArray [''Red'', ''Blue''])"
    by (simp add: entries)
  have "\<exists>text. answer_choice (answersToInsert ''r1'' ?ans ! 0) = Some text
      \<and> JSON_parse text = Some (JArray [''Red'', ''Blue''])"
    using encoding_follows_value_type[OF h1 h2 refl, of "''r1''"]
    unfolding jsval.case by blast
  then have "JSON_parse ''[\"Red\",\"Blue\"]'' = Some (JArray [''Red'', ''Blue''])"
    by (simp add: rows)
  with rows show ?thesis by simp
qed

subsection \<open>Navigation\<close>


lemma validateCurrentQuestion_in_range:
  assumes "survey s = Some sv" and "at_index (questions sv) (currentQuestionIndex s) = Some q"
  shows "validateCurrentQuestion s =
    Inr (\<not> required q \<or> obj_get (answers s) (q_id q) \<notin> {JUndefined, JString [], JNull})"
  using assms by (auto simp: validateCurrentQuestion_def Let_def)



lemma click_Previous_range:
  assumes "survey t = Some sv" "0 \<le> currentQuestionIndex t"
    "currentQuestionIndex t < int (length (questions sv))"
  shows "\<exists>s'. click Previous t = Inr s' \<and> survey s' = Some sv
      \<and> 0 \<le> currentQuestionIndex s' \<and> currentQuestionIndex s' < int (length (questions sv))"
proof (cases "clickable t Previous")
  case False
  with assms show ?thesis by (simp add: click_def)
next
  case True
  with assms(1) have "currentQuestionIndex t \<noteq> 0"
    by (simp add: clickable_def split: if_splits)
  with assms have "0 \<le> currentQuestionIndex t - 1" "currentQuestionIndex t - 1 < int (length (questions sv))"
    by simp_all
  moreover have "click Previous t = Inr (previousQuestion t)"
    using True by (simp add: click_def)
  moreover have "survey (previousQuestion t) = Some sv"
    "currentQuestionIndex (previousQuestion t) = currentQuestionIndex t - 1"
    using assms(1) by (simp_all add: previousQuestion_def)
  ultimately show ?thesis by simp
qed


lemma click_Next_range:
  assumes sv: "survey t = Some sv" and lo: "0 \<le> currentQuestionIndex t"
    and hi: "currentQuestionIndex t < int (length (questions sv))"
  shows "\<exists>s'. click Next t = Inr s' \<and> survey s' = Some sv
      \<and> 0 \<le> currentQuestionIndex s' \<and> currentQuestionIndex s' < int (length (questions sv))"
proof (cases "clickable t Next")
  case False
  with assms show ?thesis by (simp add: click_def)
next
  case True
  with sv have notlast: "currentQuestionIndex t \<noteq> int (length (questions sv)) - 1"
    by (simp add: clickable_def isLastQuestion_def split: if_splits)
  have q: "at_index (questions sv) (currentQuestionIndex t)
      = Some (questions sv ! nat (currentQuestionIndex t))"
    using lo hi by (simp add: at_index_def)
  obtain valid where valid: "validateCurrentQuestion t = Inr valid"
    using validateCurrentQuestion_in_range[OF sv q] by (rule that)
  have nx: "click Next t = nextQuestion t"
    using True by (simp add: click_def)
  show ?thesis
  proof (cases valid)
    case False
    with valid have "nextQuestion t
        = Inr (t\<lparr>error := Some ''Please answer this required question before continuing''\<rparr>)"
      by (simp add: nextQuestion_def)
    with nx sv lo hi show ?thesis by simp
  next
    case True
    with valid have "nextQuestion t
        = Inr (t\<lparr>error := None, currentQuestionIndex := currentQuestionIndex t + 1\<rparr>)"
      by (simp add: nextQuestion_def)
    moreover have "currentQuestionIndex t + 1 < int (length (questions sv))"
      using hi notlast by simp
    ultimately show ?thesis
      using nx sv lo by simp
  qed
qed

lemma clicks_range:
  assumes "survey t = Some sv" "0 \<le> currentQuestionIndex t"
    "currentQuestionIndex t < int (length (questions sv))"
  shows "\<exists>s'. clicks bs t = Inr s' \<and> survey s' = Some sv
      \<and> 0 \<le> currentQuestionIndex s' \<and> currentQuestionIndex s' < int (length (questions sv))"
  using assms
proof (induction bs arbitrary: t)
  case Nil
  then show ?case by simp
next
  case (Cons b bs)
  have "\<exists>s'. click b t = Inr s' \<and> survey s' = Some sv
      \<and> 0 \<le> currentQuestionIndex s' \<and> currentQuestionIndex s' < int (length (questions sv))"
    using click_Previous_range[OF Cons.prems] click_Next_range[OF Cons.prems]
    by (cases b) simp_all
  then obtain t' where t': "click b t = Inr t'" "survey t' = Some sv"
      "0 \<le> currentQuestionIndex t'" "currentQuestionIndex t' < int (length (questions sv))"
    by blast
  from Cons.IH[OF t'(2-4)] t'(1) show ?case by simp
qed

text \<open>
  C3, as stated, fails for the two handlers: they add and subtract one without looking at
  the bounds. On the first question of the example survey \<^verbatim>\<open>previousQuestion\<close> gives index
  \<open>-1\<close>; on its last question, which is optional, \<^verbatim>\<open>nextQuestion\<close> gives index \<open>3\<close>. And
  for a survey without questions the range is empty, while the page starts at index 0.
\<close>

theorem handlers_leave_range:
  "currentQuestionIndex ready_page = 0
   \<and> currentQuestionIndex (previousQuestion ready_page) = - 1
   \<and> length (questions example_survey) = 3
   \<and> nextQuestion (ready_page\<lparr>currentQuestionIndex := 2\<rparr>)
       = Inr (ready_page\<lparr>currentQuestionIndex := 3\<rparr>)
   \<and> length (questions (example_survey\<lparr>questions := []\<rparr>)) = 0
   \<and> currentQuestionIndex (ready_page\<lparr>survey := Some (example_survey\<lparr>questions := []\<rparr>)\<rparr>)
       = 0"
  by (simp add: example_defs page_defs)

text \<open>
  C3, amended: for every survey with at least one question and every sequence of clicks
  on \<^verbatim>\<open>Previous\<close> and \<^verbatim>\<open>Next\<close>, starting from index 0, no handler throws and the index
  stays within \<open>[0, N)\<close>. The bounds are kept by the page, not by the handlers: \<^verbatim>\<open>Previous\<close>
  is disabled at index 0 and \<^verbatim>\<open>Next\<close> is not shown on the last question.
\<close>

theorem index_stays_in_range:
  assumes "survey s = Some sv"
    and "questions sv \<noteq> []"
    and "currentQuestionIndex s = 0"
  shows "\<exists>s'. clicks bs s = Inr s' \<and> survey s' = Some sv
    \<and> 0 \<le> currentQuestionIndex s' \<and> currentQuestionIndex s' < int (length (questions sv))"
  using assms by (intro clicks_range) simp_all

theorem index_stays_in_range_witness:
  "clicks [Previous, Next, Next, Previous, Next, Next, Next]
     (onChange name_question ''Ann'' (onChange colour_question ''Red'' ready_page))
   = Inr (onChange name_question ''Ann'' (onChange colour_question ''Red'' ready_page)
           \<lparr>currentQuestionIndex := 2\<rparr>)
   \<and> clicks [Next, Next] ready_page
   = Inr (ready_page\<lparr>error := Some ''Please answer this required question before continuing''\<rparr>)"
proof -
  let ?s = "onChange name_question ''Ann'' (onChange colour_question ''Red'' ready_page)"
  have h: "survey ?s = Some example_survey" "questions example_survey \<noteq> []"
    "currentQuestionIndex ?s = 0"
    by (simp_all add: example_defs page_defs)
  from index_stays_in_range[OF h, of "[Previous, Next, Next, Previous, Next, Next, Next]"]
  have "\<exists>s'. clicks [Previous, Next, Next, Previous, Next, Next, Next] ?s = Inr s'"
    by blast
  moreover have "clicks [Previous, Next, Next, Previous, Next, Next, Next] ?s
      = Inr (?s\<lparr>currentQuestionIndex := 2\<rparr>)"
    by (simp add: example_defs page_defs click_def clickable_def isLastQuestion_def entries_defs)
  moreover have "clicks [Next, Next] ready_page
      = Inr (ready_page\<lparr>error := Some ''Please answer this required question before continuing''\<rparr>)"
    by (simp add: example_defs page_defs click_def clickable_def isLastQuestion_def)
  ultimately show ?thesis by simp
qed

text \<open>
  C4: on a required question whose buffer entry is missing or empty (\<^verbatim>\<open>undefined\<close>, the
  empty string or \<^verbatim>\<open>null\<close>), \<^verbatim>\<open>nextQuestion\<close> sets the validation error and leaves the
  index unchanged; otherwise (the question is optional or answered) it clears the error
  and increments the index by one.
\<close>

theorem advance_requires_answer:
  assumes "survey s = Some sv"
    and "at_index (questions sv) (currentQuestionIndex s) = Some q"
  shows "(required q
          \<and> (q_id q \<notin> fst ` set (answers s)
               \<or> obj_get (answers s) (q_id q) \<in> {JUndefined, JString [], JNull}) \<longrightarrow>
            nextQuestion s
              = Inr (s\<lparr>error := Some ''Please answer this required question before continuing''\<rparr>))
    \<and> (\<not> (required q \<and> obj_get (answers s) (q_id q) \<in> {JUndefined, JString [], JNull}) \<longrightarrow>
            nextQuestion s
              = Inr (s\<lparr>error := None, currentQuestionIndex := currentQuestionIndex s + 1\<rparr>))"
proof -
  have valid: "validateCurrentQuestion s =
      Inr (\<not> required q \<or> obj_get (answers s) (q_id q) \<notin> {JUndefined, JString [], JNull})"
    using assms by (rule validateCurrentQuestion_in_range)
  have missing: "obj_get (answers s) (q_id q) \<in> {JUndefined, JString [], JNull}"
    if "q_id q \<notin> fst ` set (answers s)"
    using obj_get_missing[OF that] by simp
  show ?thesis
    using valid missing by (auto simp: nextQuestion_def)
qed

theorem advance_requires_answer_witness:
  "nextQuestion ready_page
     = Inr (ready_page\<lparr>error := Some ''Please answer this required question before continuing''\<rparr>)
   \<and> nextQuestion (onChange colour_question ''Red'' ready_page)
     = Inr (onChange colour_question ''Red'' ready_page\<lparr>error := None, currentQuestionIndex := 1\<rparr>)"
proof -
  let ?s = "onChange colour_question ''Red'' ready_page"
  have sv: "survey ready_page = Some example_survey" "survey ?s = Some example_survey"
    by (simp_all add: example_defs page_defs)
  have q: "at_index (questions example_survey) (currentQuestionIndex ready_page) = Some colour_question"
    "at_index (questions example_survey) (currentQuestionIndex ?s) = Some colour_question"
    by (simp_all add: example_defs page_defs)
  have a: "required colour_question"
    "obj_get (answers ready_page) (q_id colour_question) = JUndefined"
    "obj_get (answers ?s) (q_id colour_question) = JString ''Red''"
    "currentQuestionIndex ?s = 0"
    by (simp_all add: example_defs page_defs entries_defs)
  from advance_requires_answer[OF sv(1) q(1)] advance_requires_answer[OF sv(2) q(2)] a
  show ?thesis by simp
qed

subsection \<open>Submission\<close>

lemma missingRequired_filter:
  "missingRequired sv ans =
     filter (\<lambda>q. required q \<and> obj_get ans (q_id q) \<in> {JUndefined, JString [], JNull})
       (questions sv)"
  by (simp add: missingRequired_def)

lemma answersToInsert_rows:
  "length (answersToInsert rid ans) = length ans"
  "map question_id (answersToInsert rid ans) = map fst (Object_entries ans)"
  "\<forall>row \<in> set (answersToInsert rid ans). response_id row = rid"
  by (auto simp: answersToInsert_def length_Object_entries)

text \<open>
  C5: \<^verbatim>\<open>submitSurvey\<close> checks every question of the survey. If some required question has
  a missing or empty buffer entry, the error names the text of each of them, in survey
  order, and nothing is written: the tables are unchanged and the page does not navigate.
  If there is none and the store accepts both inserts, one response row is added and one
  answer row per buffer entry, each carrying the new response's id.
\<close>

theorem submit_checks_all_required:
  assumes "survey s = Some sv"
  shows "(filter (\<lambda>q. required q \<and> obj_get (answers s) (q_id q) \<in> {JUndefined, JString [], JNull})
            (questions sv) \<noteq> [] \<longrightarrow>
          submitSurvey be s db =
            (s\<lparr>error := Some (''Please answer all required questions: '' @ join '', ''
                (map question_text
                  (filter (\<lambda>q. required q
                       \<and> obj_get (answers s) (q_id q) \<in> {JUndefined, JString [], JNull})
                     (questions sv))))\<rparr>,
             db, None))
    \<and> (filter (\<lambda>q. required q \<and> obj_get (answers s) (q_id q) \<in> {JUndefined, JString [], JNull})
            (questions sv) = []
          \<and> response_insert be = Accepted (rid, now) \<and> answers_insert be = Accepted () \<longrightarrow>
          (\<exists>rows.
             submitSurvey be s db =
               (s\<lparr>isSubmitting := False, error := None\<rparr>,
                \<lparr>db_responses = db_responses db
                    @ [\<lparr>r_id = rid, survey_id = s_id sv, participant_id = None,
                        submitted_at = now\<rparr>],
                 db_answers = db_answers db @ rows\<rparr>,
                Some ''/survey/thank-you'')
             \<and> length rows = length (answers s)
             \<and> map question_id rows = map fst (Object_entries (answers s))
             \<and> (\<forall>row \<in> set rows. response_id row = rid)))"
proof (intro conjI impI)
  assume "filter (\<lambda>q. required q \<and> obj_get (answers s) (q_id q) \<in> {JUndefined, JString [], JNull})
            (questions sv) \<noteq> []"
  then have "missingRequired sv (answers s) \<noteq> []"
    by (simp add: missingRequired_filter)
  with assms have "submitSurvey be s db =
      (s\<lparr>error := Some (''Please answer all required questions: '' @ join '', ''
          (map question_text (missingRequired sv (answers s))))\<rparr>, db, None)"
    by (simp add: submitSurvey_def)
  then show "submitSurvey be s db =
            (s\<lparr>error := Some (''Please answer all required questions: '' @ join '', ''
                (map question_text
                  (filter (\<lambda>q. required q
                       \<and> obj_get (answers s) (q_id q) \<in> {JUndefined, JString [], JNull})
                     (questions sv))))\<rparr>,
             db, None)"
    by (simp only: missingRequired_filter)
next
  assume a: "filter (\<lambda>q. required q \<and> obj_get (answers s) (q_id q) \<in> {JUndefined, JString [], JNull})
            (questions sv) = []
          \<and> response_insert be = Accepted (rid, now) \<and> answers_insert be = Accepted ()"
  then have none: "missingRequired sv (answers s) = []"
    by (simp add: missingRequired_filter)
  have "submitSurvey be s db =
      (s\<lparr>isSubmitting := False, error := None\<rparr>,
       \<lparr>db_responses = db_responses db
           @ [\<lparr>r_id = rid, survey_id = s_id sv, participant_id = None, submitted_at = now\<rparr>],
        db_answers = db_answers db @ answersToInsert rid (answers s)\<rparr>,
       Some ''/survey/thank-you'')"
    using assms a none by (simp add: submitSurvey_def)
  with answersToInsert_rows[of rid "answers s"]
  show "\<exists>rows.
             submitSurvey be s db =
               (s\<lparr>isSubmitting := False, error := None\<rparr>,
                \<lparr>db_responses = db_responses db
                    @ [\<lparr>r_id = rid, survey_id = s_id sv, participant_id = None,
                        submitted_at = now\<rparr>],
                 db_answers = db_answers db @ rows\<rparr>,
                Some ''/survey/thank-you'')
             \<and> length rows = length (answers s)
             \<and> map question_id rows = map fst (Object_entries (answers s))
             \<and> (\<forall>row \<in> set rows. response_id row = rid)"
    by blast
qed

theorem submit_checks_all_required_witness:
  "submitSurvey accepting_backend (onChange colour_question ''Red'' ready_page) empty_database
     = (onChange colour_question ''Red'' ready_page
          \<lparr>error := Some ''Please answer all required questions: Your name''\<rparr>,
        empty_database, None)
   \<and> submitSurvey accepting_backend
       (onChange name_question ''Ann'' (onChange colour_question ''Red'' ready_page))
       empty_database
     = (onChange name_question ''Ann'' (onChange colour_question ''Red'' ready_page),
        \<lparr>db_responses = [\<lparr>r_id = ''r1'', survey_id = ''s1'', participant_id = None,
                          submitted_at = ''2024-05-01T10:00:00Z''\<rparr>],
         db_answers = [\<lparr>response_id = ''r1'', question_id = ''q1'',
                        answer_text = Some ''Red'', answer_choice = None\<rparr>,
                       \<lparr>response_id = ''r1'', question_id = ''q2'',
                        answer_text = Some ''Ann'', answer_choice = None\<rparr>]\<rparr>,
        Some ''/survey/thank-you'')"
proof -
  let ?one = "onChange colour_question ''Red'' ready_page"
  let ?two = "onChange name_question ''Ann'' ?one"
  have one: "answers ?one = [(''q1'', JString ''Red'')]"
    by (simp add: example_defs page_defs entries_defs)
  have two: "answers ?two = [(''q1'', JString ''Red''), (''q2'', JString ''Ann'')]"
    by (simp add: example_defs page_defs entries_defs)
  have sv: "survey ?one = Some example_survey" "survey ?two = Some example_survey"
    by (simp_all add: example_defs page_defs)
  have missing1: "filter (\<lambda>q. required q
        \<and> obj_get (answers ?one) (q_id q) \<in> {JUndefined, JString [], JNull})
      (questions example_survey) = [name_question]"
    unfolding one by (simp add: example_defs)
  have missing2: "filter (\<lambda>q. required q
        \<and> obj_get (answers ?two) (q_id q) \<in> {JUndefined, JString [], JNull})
      (questions example_survey) = []"
    unfolding two by (simp add: example_defs)
  have be: "response_insert accepting_backend = Accepted (''r1'', ''2024-05-01T10:00:00Z'')"
    "answers_insert accepting_backend = Accepted ()"
    by (simp_all add: accepting_backend_def)
  have first: "submitSurvey accepting_backend ?one empty_database
     = (?one\<lparr>error := Some ''Please answer all required questions: Your name''\<rparr>,
        empty_database, None)"
    using submit_checks_all_required[OF sv(1), where be = accepting_backend
        and db = empty_database]
    unfolding missing1 by (simp add: name_question_def)
  have state: "?two\<lparr>isSubmitting := False, error := None\<rparr> = ?two"
    by (simp add: example_defs page_defs)
  have rows: "answersToInsert ''r1'' (answers ?two)
      = [\<lparr>response_id = ''r1'', question_id = ''q1'',
           answer_text = Some ''Red'', answer_choice = None\<rparr>,
         \<lparr>response_id = ''r1'', question_id = ''q2'',
           answer_text = Some ''Ann'', answer_choice = None\<rparr>]"
    unfolding two by (simp add: answersToInsert_def entries_defs)
  from submit_checks_all_required[OF sv(2), where be = accepting_backend and rid = "''r1''"
      and now = "''2024-05-01T10:00:00Z''" and db = empty_database] missing2 be
  obtain rows where r: "submitSurvey accepting_backend ?two empty_database =
      (?two\<lparr>isSubmitting := False, error := None\<rparr>,
       \<lparr>db_responses = db_responses empty_database
           @ [\<lparr>r_id = ''r1'', survey_id = s_id example_survey, participant_id = None,
               submitted_at = ''2024-05-01T10:00:00Z''\<rparr>],
        db_answers = db_answers empty_database @ rows\<rparr>,
       Some ''/survey/thank-you'')"
    by blast
  have "submitSurvey accepting_backend ?two empty_database =
      (?two\<lparr>isSubmitting := False, error := None\<rparr>,
       \<lparr>db_responses = db_responses empty_database
           @ [\<lparr>r_id = ''r1'', survey_id = s_id example_survey, participant_id = None,
               submitted_at = ''2024-05-01T10:00:00Z''\<rparr>],
        db_answers = db_answers empty_database @ answersToInsert ''r1'' (answers ?two)\<rparr>,
       Some ''/survey/thank-you'')"
    using sv(2) missing2 be
    by (simp add: submitSurvey_def missingRequired_filter)
  then have second: "submitSurvey accepting_backend ?two empty_database
     = (?two,
        \<lparr>db_responses = [\<lparr>r_id = ''r1'', survey_id = ''s1'', participant_id = None,
                          submitted_at = ''2024-05-01T10:00:00Z''\<rparr>],
         db_answers = [\<lparr>response_id = ''r1'', question_id = ''q1'',
                        answer_text = Some ''Red'', answer_choice = None\<rparr>,
                       \<lparr>response_id = ''r1'', question_id = ''q2'',
                        answer_text = Some ''Ann'', answer_choice = None\<rparr>]\<rparr>,
        Some ''/survey/thank-you'')"
    unfolding rows state using r by (simp add: empty_database_def example_survey_def)
  from first second show ?thesis by simp
qed

lemma obj_get_filter:
  "obj_get ob k = (case filter (\<lambda>p. fst p = k) ob of [] \<Rightarrow> JUndefined | p # ps \<Rightarrow> snd p)"
  by (induction ob) auto

lemma filter_key_Object_entries:
  "filter (\<lambda>p. fst p = k) (Object_entries ob) = filter (\<lambda>p. fst p = k) ob"
proof (cases "is_array_index k")
  case True
  let ?f = "\<lambda>(k, v). decimal_value k"
  let ?A = "filter (\<lambda>(k, v). is_array_index k) ob"
  have "filter (\<lambda>p. fst p = k) (sort_key ?f ?A)
      = filter (\<lambda>p. fst p = k) (filter (\<lambda>p. ?f p = decimal_value k) (sort_key ?f ?A))"
    by (auto intro: filter_cong)
  also have "\<dots> = filter (\<lambda>p. fst p = k) (filter (\<lambda>p. ?f p = decimal_value k) ?A)"
    by (simp only: sort_key_stable)
  also have "\<dots> = filter (\<lambda>p. fst p = k) ob"
    using True by (auto intro: filter_cong)
  finally have "filter (\<lambda>p. fst p = k) (sort_key ?f ?A) = filter (\<lambda>p. fst p = k) ob" .
  moreover have "filter (\<lambda>p. fst p = k) (filter (\<lambda>(k, v). \<not> is_array_index k) ob) = []"
    using True by (auto simp: filter_empty_conv)
  ultimately show ?thesis
    by (simp add: Object_entries_def)
next
  case False
  let ?f = "\<lambda>(k, v). decimal_value k"
  let ?A = "filter (\<lambda>(k, v). is_array_index k) ob"
  have "filter (\<lambda>p. fst p = k) (sort_key ?f ?A) = []"
    using False by (auto simp: filter_empty_conv)
  moreover have "filter (\<lambda>p. fst p = k) (filter (\<lambda>(k, v). \<not> is_array_index k) ob)
      = filter (\<lambda>p. fst p = k) ob"
    using False by (auto intro: filter_cong)
  ultimately show ?thesis
    by (simp add: Object_entries_def)
qed

lemma obj_get_Object_entries: "obj_get (Object_entries ob) k = obj_get ob k"
  by (simp add: obj_get_filter filter_key_Object_entries)

text \<open>
  C6: the required-field checks do not tell an empty string from an absent entry. For
  every buffer and key, \<^verbatim>\<open>validateCurrentQuestion\<close> and the filter of \<^verbatim>\<open>submitSurvey\<close>
  give the same result on the buffer with the key set to \<^verbatim>\<open>''\<close> and on the buffer with
  the key removed, and \<^verbatim>\<open>nextQuestion\<close> leaves the same index and error.
\<close>

theorem empty_string_counts_as_absent:
  "validateCurrentQuestion (s\<lparr>answers := obj_set (answers s) k (JString [])\<rparr>)
     = validateCurrentQuestion (s\<lparr>answers := obj_delete (answers s) k\<rparr>)
   \<and> validateCurrentQuestion (handleAnswerChange k (JString []) s)
     = validateCurrentQuestion (s\<lparr>answers := obj_delete (answers s) k\<rparr>)
   \<and> missingRequired sv (obj_set ans k (JString [])) = missingRequired sv (obj_delete ans k)
   \<and> map_sum id (\<lambda>t. (currentQuestionIndex t, error t))
         (nextQuestion (s\<lparr>answers := obj_set (answers s) k (JString [])\<rparr>))
     = map_sum id (\<lambda>t. (currentQuestionIndex t, error t))
         (nextQuestion (s\<lparr>answers := obj_delete (answers s) k\<rparr>))"
proof -
  have v: "validateCurrentQuestion (t\<lparr>answers := obj_set ob k (JString [])\<rparr>)
      = validateCurrentQuestion (t\<lparr>answers := ob'\<rparr>)"
    if "\<And>k'. obj_get ob' k' = (if k' = k then JUndefined else obj_get ob k')" for t ob ob'
    by (simp add: validateCurrentQuestion_def Let_def obj_get_obj_set that
        split: option.splits)
  have del: "obj_get (obj_delete ob k) k' = (if k' = k then JUndefined else obj_get ob k')"
    for ob k'
    by (rule obj_get_obj_delete)
  have v1: "validateCurrentQuestion (s\<lparr>answers := obj_set (answers s) k (JString [])\<rparr>)
     = validateCurrentQuestion (s\<lparr>answers := obj_delete (answers s) k\<rparr>)"
    by (rule v) (rule del)
  have v2: "validateCurrentQuestion (handleAnswerChange k (JString []) s)
     = validateCurrentQuestion (s\<lparr>answers := obj_delete (answers s) k\<rparr>)"
    unfolding handleAnswerChange_def
    by (rule v) (simp add: del obj_get_Object_entries)
  have m: "missingRequired sv (obj_set ans k (JString [])) = missingRequired sv (obj_delete ans k)"
    by (simp add: missingRequired_def obj_get_obj_set del)
  have n: "map_sum id (\<lambda>t. (currentQuestionIndex t, error t))
         (nextQuestion (s\<lparr>answers := obj_set (answers s) k (JString [])\<rparr>))
     = map_sum id (\<lambda>t. (currentQuestionIndex t, error t))
         (nextQuestion (s\<lparr>answers := obj_delete (answers s) k\<rparr>))"
    unfolding nextQuestion_def v1
    by (simp split: sum.splits)
  from v1 v2 m n show ?thesis by blast
qed

theorem empty_string_counts_as_absent_witness:
  "validateCurrentQuestion (handleAnswerChange ''q1'' (JString []) ready_page) = Inr False
   \<and> validateCurrentQuestion (ready_page\<lparr>answers := []\<rparr>) = Inr False
   \<and> missingRequired example_survey [(''q1'', JString []), (''q2'', JString ''Ann'')]
       = [colour_question]
   \<and> missingRequired example_survey [(''q2'', JString ''Ann'')] = [colour_question]"
proof -
  let ?ans = "[(''q1'', JString ''Red''), (''q2'', JString ''Ann'')]"
  have absent: "validateCurrentQuestion (ready_page\<lparr>answers := []\<rparr>) = Inr False"
    by (simp add: example_defs page_defs)
  have missing: "missingRequired example_survey [(''q2'', JString ''Ann'')] = [colour_question]"
    by (simp add: missingRequired_def example_defs)
  have upd: "obj_set ?ans ''q1'' (JString []) = [(''q1'', JString []), (''q2'', JString ''Ann'')]"
    "obj_delete ?ans ''q1'' = [(''q2'', JString ''Ann'')]"
    "obj_delete (answers ready_page) ''q1'' = []"
    by (simp_all add: ready_page_def)
  from empty_string_counts_as_absent[of ready_page "''q1''" example_survey ?ans]
  show ?thesis
    unfolding upd by (simp add: absent missing)
qed

section \<open>The results page\<close>

text \<open>
  \<^verbatim>\<open>SurveyResultsPage\<close> (the second file of \<^verbatim>\<open>src/unnamed/part_000\<close>) reads the stored
  answers back in \<^verbatim>\<open>generateAnalytics\<close> and \<^verbatim>\<open>exportToCSV\<close>.
\<close>

fun column_text :: "string option \<Rightarrow> string" where
  "column_text None = []"
| "column_text (Some t) = t"

fun elements :: "jsval \<Rightarrow> string list" where
  "elements (JArray xs) = xs"
| "elements v = []"

subsection \<open>CSV export\<close>

text \<open>
  The value of the cell of one question in the row of one response. \<open>None\<close> when
  \<^verbatim>\<open>JSON.parse\<close> gives no value.
\<close>

definition answerValue :: "question \<Rightarrow> response_with_answers \<Rightarrow> jsval option" where
  "answerValue question response =
     (case find (\<lambda>a. question_id a = q_id question) (r_answers response) of
        None \<Rightarrow> Some (JString [])
      | Some answer \<Rightarrow>
         (if truthy_text (answer_text answer) then Some (JString (column_text (answer_text answer)))
          else if truthy_text (answer_choice answer) then
            (case JSON_parse (column_text (answer_choice answer)) of
               None \<Rightarrow> None
             | Some choice \<Rightarrow>
                Some (if isArray choice then JString (join '', '' (elements choice)) else choice))
          else Some (JString [])))"

text \<open>
  \<^verbatim>\<open>`"${cell?.toString().replace(/"/g, '""') || ''}"`\<close>: the optional call gives
  \<^verbatim>\<open>undefined\<close> on \<^verbatim>\<open>null\<close> and \<^verbatim>\<open>undefined\<close>, which \<^verbatim>\<open>||\<close> turns into the empty string.
\<close>

fun toString :: "jsval \<Rightarrow> string option" where
  "toString JUndefined = None"
| "toString JNull = None"
| "toString (JString s) = Some s"
| "toString (JArray xs) = Some (join '','' xs)"

definition double_quotes :: "string \<Rightarrow> string" where
  "double_quotes s = concat (map (\<lambda>c. if c = dquote then [dquote, dquote] else [c]) s)"

definition csv_cell :: "jsval \<Rightarrow> string" where
  "csv_cell cell =
     dquote # (case toString cell of None \<Rightarrow> [] | Some s \<Rightarrow> double_quotes s) @ [dquote]"

definition csv_headers :: "survey_with_questions \<Rightarrow> jsval list" where
  "csv_headers sv =
     JString ''Response ID'' # JString ''Submitted At''
       # map (\<lambda>q. JString (question_text q)) (questions sv)"

text \<open>
  One row of the table. The parameter \<open>fmt\<close> stands for
  \<^verbatim>\<open>format(new Date(t), 'yyyy-MM-dd HH:mm:ss')\<close> of date-fns, which depends on the time zone
  of the browser.
\<close>

definition csv_row ::
  "(string \<Rightarrow> string) \<Rightarrow> survey_with_questions \<Rightarrow> response_with_answers \<Rightarrow> jsval list option" where
  "csv_row fmt sv response =
     (case those (map (\<lambda>question. answerValue question response) (questions sv)) of
        None \<Rightarrow> None
      | Some cells \<Rightarrow> Some (JString (r_id response) # JString (fmt (submitted_at response)) # cells))"

definition csvContent :: "jsval list list \<Rightarrow> string" where
  "csvContent table = join [CHR 0x0A] (map (\<lambda>row. join '','' (map csv_cell row)) table)"

text \<open>
  \<^verbatim>\<open>exportToCSV\<close> returns at once without a survey or without responses (\<open>NoExport\<close>);
  otherwise it offers the file \<^verbatim>\<open>{slug}-responses.csv\<close> for download. \<open>NoValue\<close> stands for
  the case that \<^verbatim>\<open>JSON.parse\<close> gave no value for some stored choice.
\<close>

datatype export = NoExport | NoValue | Download string string

definition exportToCSV ::
  "(string \<Rightarrow> string) \<Rightarrow> survey_with_questions option \<Rightarrow> response_with_answers list \<Rightarrow> export" where
  "exportToCSV fmt survey_opt responses =
     (case survey_opt of
        None \<Rightarrow> NoExport
      | Some sv \<Rightarrow>
         (if length responses = 0 then NoExport
          else
            (case those (map (csv_row fmt sv) responses) of
               None \<Rightarrow> NoValue
             | Some rows \<Rightarrow>
                Download (slug sv @ ''-responses.csv'') (csvContent (csv_headers sv # rows)))))"

subsection \<open>Question analytics\<close>

text \<open>
  \<^verbatim>\<open>const choice = answer.answer_choice ? JSON.parse(answer.answer_choice) : answer.answer_text\<close>
  and \<^verbatim>\<open>const key = Array.isArray(choice) ? choice[0] : choice\<close>.
\<close>

definition answer_choice_value :: "answer_row \<Rightarrow> jsval option" where
  "answer_choice_value answer =
     (if truthy_text (answer_choice answer) then JSON_parse (column_text (answer_choice answer))
      else Some (case answer_text answer of None \<Rightarrow> JNull | Some t \<Rightarrow> JString t))"

definition choice_key :: "jsval \<Rightarrow> jsval" where
  "choice_key choice =
     (if isArray choice
      then (case elements choice of [] \<Rightarrow> JUndefined | x # xs \<Rightarrow> JString x)
      else choice)"

text \<open>The property name that a value used as a key is converted to.\<close>

fun ToPropertyKey :: "jsval \<Rightarrow> string" where
  "ToPropertyKey JUndefined = ''undefined''"
| "ToPropertyKey JNull = ''null''"
| "ToPropertyKey (JString s) = s"
| "ToPropertyKey (JArray xs) = join '','' xs"

text \<open>
  \<^verbatim>\<open>answerCounts\<close> is declared \<^verbatim>\<open>Record<string, number>\<close> and starts as \<^verbatim>\<open>{}\<close>, an object
  whose prototype is \<^verbatim>\<open>Object.prototype\<close>. Reading a key that it does not own gives the
  member of \<^verbatim>\<open>Object.prototype\<close> of that name, if there is one: a built-in function, or
  for \<^verbatim>\<open>__proto__\<close> the prototype object itself.
\<close>

datatype inherited = NativeFunction string | PrototypeObject

definition Object_prototype :: "string \<Rightarrow> inherited option" where
  "Object_prototype key =
     (if key = ''constructor'' then Some (NativeFunction ''Object'')
      else if key \<in> set [''hasOwnProperty'', ''isPrototypeOf'', ''propertyIsEnumerable'',
                          ''toLocaleString'', ''toString'', ''valueOf'', ''__defineGetter__'',
                          ''__defineSetter__'', ''__lookupGetter__'', ''__lookupSetter__'']
        then Some (NativeFunction key)
      else if key = ''__proto__'' then Some PrototypeObject
      else None)"

text \<open>
  The text of a built-in function, as V8 prints it. The standard fixes the name in it and
  leaves the white space to the engine.
\<close>

definition native_function_text :: "string \<Rightarrow> string" where
  "native_function_text name = ''function '' @ name @ ''() { [native code] }''"

text \<open>
  A value held by \<^verbatim>\<open>answerCounts\<close>: a number, or a string once \<^verbatim>\<open>+\<close> has had an operand
  that is not a number. \<^verbatim>\<open>(answerCounts[key] || 0) + 1\<close> adds one to a number, and appends
  \<^verbatim>\<open>1\<close> to the text of anything else that is truthy.
\<close>

datatype count_value = Num nat | Str string

definition incremented :: "count_value obj \<Rightarrow> string \<Rightarrow> count_value" where
  "incremented answerCounts key =
     (case map_of answerCounts key of
        Some (Num n) \<Rightarrow> Num (n + 1)
      | Some (Str s) \<Rightarrow> (if s = [] then Num 1 else Str (s @ ''1''))
      | None \<Rightarrow>
         (case Object_prototype key of
            None \<Rightarrow> Num 1
          | Some (NativeFunction name) \<Rightarrow> Str (native_function_text name @ ''1'')
          | Some PrototypeObject \<Rightarrow> Str ''[object Object]1''))"

text \<open>
  \<^verbatim>\<open>answerCounts[key] = v\<close> sets an own property, except for \<^verbatim>\<open>__proto__\<close>, whose setter
  ignores a value that is not an object.
\<close>

definition assigned :: "count_value obj \<Rightarrow> string \<Rightarrow> count_value \<Rightarrow> count_value obj" where
  "assigned answerCounts key v =
     (if key = ''__proto__'' then answerCounts else obj_set answerCounts key v)"

text \<open>The key of an answer; \<open>None\<close> when \<^verbatim>\<open>JSON.parse\<close> gives no value.\<close>

definition answer_key :: "answer_row \<Rightarrow> string option" where
  "answer_key answer =
     (case answer_choice_value answer of
        None \<Rightarrow> None
      | Some choice \<Rightarrow> Some (ToPropertyKey (choice_key choice)))"

text \<open>\<^verbatim>\<open>answerCounts[key] = (answerCounts[key] || 0) + 1\<close> for each answer in turn.\<close>

fun count_answers :: "count_value obj \<Rightarrow> answer_row list \<Rightarrow> count_value obj option" where
  "count_answers answerCounts [] = Some answerCounts"
| "count_answers answerCounts (answer # rest) =
     (case answer_key answer of
        None \<Rightarrow> None
      | Some key \<Rightarrow>
         count_answers (assigned answerCounts key (incremented answerCounts key)) rest)"

record chart_datum =
  answer :: string
  count :: count_value
  fullAnswer :: string

record question_analytics =
  questionId :: string
  questionText :: string
  questionType :: question_type
  responses :: "answer_row list"
  chartData :: "chart_datum list"

definition chart_entries :: "count_value obj \<Rightarrow> chart_datum list" where
  "chart_entries answerCounts =
     map (\<lambda>(a, n). \<lparr>answer = take 20 a @ (if length a > 20 then ''...'' else []),
                    count = n, fullAnswer = a\<rparr>)
       (Object_entries answerCounts)"

definition questionResponses :: "question \<Rightarrow> response_with_answers list \<Rightarrow> answer_row list" where
  "questionResponses question rs =
     concat (map (\<lambda>r. filter (\<lambda>a. question_id a = q_id question) (r_answers r)) rs)"

definition question_analytics_of ::
  "question \<Rightarrow> response_with_answers list \<Rightarrow> question_analytics option" where
  "question_analytics_of question rs =
     (case (if question_type question = multiple_choice \<or> question_type question = likert_scale
            then map_option chart_entries (count_answers [] (questionResponses question rs))
            else Some [])
      of None \<Rightarrow> None
       | Some chart \<Rightarrow>
           Some \<lparr>questionId = q_id question, questionText = question_text question,
                 questionType = question_type question,
                 responses = questionResponses question rs, chartData = chart\<rparr>)"

definition questionAnalytics ::
  "question list \<Rightarrow> response_with_answers list \<Rightarrow> question_analytics list option" where
  "questionAnalytics qs rs = those (map (\<lambda>question. question_analytics_of question rs) qs)"

section \<open>Properties of the answer codec\<close>

lemma Object_entries_single: "Object_entries [(k, v)] = [(k, v)]"
  by (simp add: Object_entries_def)

lemma JSON_parse_Nil: "JSON_parse [] = None"
  by (simp add: JSON_parse_def skip_ws_Nil)

lemma answerValue_text:
  assumes "find (\<lambda>a. question_id a = q_id q) (r_answers response) = Some a"
    and "answer_text a = Some s" and "answer_choice a = None"
  shows "answerValue q response = Some (JString s)"
  using assms by (simp add: answerValue_def)

lemma answerValue_array:
  assumes "find (\<lambda>a. question_id a = q_id q) (r_answers response) = Some a"
    and "\<not> truthy_text (answer_text a)"
    and "answer_choice a = Some text" and "JSON_parse text = Some (JArray xs)"
  shows "answerValue q response = Some (JString (join '', '' xs))"
proof -
  from assms(4) have "text \<noteq> []"
    using JSON_parse_Nil by auto
  with assms show ?thesis
    by (simp add: answerValue_def)
qed

text \<open>
  C2: what \<^verbatim>\<open>submitSurvey\<close> stores for a value is read back as that value, whatever the
  type of the question. For every value other than \<^verbatim>\<open>undefined\<close>, the choice decoded by
  \<^verbatim>\<open>generateAnalytics\<close> from the stored row is the value. For a string \<open>s\<close>, the key of
  \<^verbatim>\<open>generateAnalytics\<close> and the cell of \<^verbatim>\<open>exportToCSV\<close> are both \<open>s\<close>. For an array of
  strings, \<^verbatim>\<open>generateAnalytics\<close> takes the first element as the key and \<^verbatim>\<open>exportToCSV\<close>
  joins the elements with a comma and a space, so a one-element array is read back as its
  element by both.
\<close>

theorem decode_encode_roundtrip:
  assumes "row = hd (answersToInsert rid [(k, v)])"
    and "q_id q = k"
    and "r_answers response = [row]"
  shows "(v \<noteq> JUndefined \<longrightarrow> answer_choice_value row = Some v)
    \<and> (v = JString s \<longrightarrow>
            map_option choice_key (answer_choice_value row) = Some (JString s)
            \<and> answerValue q response = Some (JString s))
    \<and> (v = JArray xs \<longrightarrow> answerValue q response = Some (JString (join '', '' xs)))
    \<and> (v = JArray (x # xs) \<longrightarrow>
            map_option choice_key (answer_choice_value row) = Some (JString x))
    \<and> (v = JArray [x] \<longrightarrow> answerValue q response = Some (JString x))"
proof -
  have row: "row = \<lparr>response_id = rid, question_id = k,
      answer_text = (case v of JString t \<Rightarrow> Some t | _ \<Rightarrow> None),
      answer_choice = (if typeof v = ''object'' then JSON_stringify v else None)\<rparr>"
    using assms(1) by (simp add: answersToInsert_def Object_entries_single)
  have found: "find (\<lambda>a. question_id a = q_id q) (r_answers response) = Some row"
    using assms(2,3) row by simp
  have stored: "answer_choice_value row = Some v" if "v \<noteq> JUndefined"
  proof (cases v)
    case JUndefined
    with that show ?thesis by simp
  next
    case (JString t)
    with row show ?thesis
      by (simp add: answer_choice_value_def)
  next
    case object: JNull
    then obtain js where js: "JSON_stringify v = Some js"
      by simp
    then have "JSON_parse js = Some v"
      by (rule JSON_parse_stringify)
    moreover from this have "js \<noteq> []"
      using JSON_parse_Nil by auto
    ultimately show ?thesis
      using row object js by (simp add: answer_choice_value_def)
  next
    case object: (JArray ys)
    then obtain js where js: "JSON_stringify v = Some js"
      by simp
    then have "JSON_parse js = Some v"
      by (rule JSON_parse_stringify)
    moreover from this have "js \<noteq> []"
      using JSON_parse_Nil by auto
    ultimately show ?thesis
      using row object js by (simp add: answer_choice_value_def)
  qed
  have string: "map_option choice_key (answer_choice_value row) = Some (JString s)
      \<and> answerValue q response = Some (JString s)" if "v = JString s"
  proof -
    from that row have cols: "answer_text row = Some s" "answer_choice row = None"
      by simp_all
    from that stored have "answer_choice_value row = Some (JString s)"
      by simp
    with answerValue_text[OF found cols] show ?thesis
      by (simp add: choice_key_def)
  qed
  have array: "answer_choice_value row = Some (JArray ys)
      \<and> answerValue q response = Some (JString (join '', '' ys))" if "v = JArray ys" for ys
  proof -
    obtain js where js: "JSON_stringify (JArray ys) = Some js"
      by simp
    then have parsed: "JSON_parse js = Some (JArray ys)"
      by (rule JSON_parse_stringify)
    from that row js have cols: "answer_text row = None" "answer_choice row = Some js"
      by simp_all
    have "answerValue q response = Some (JString (join '', '' ys))"
      using answerValue_array[OF found _ cols(2) parsed] cols(1) by simp
    with that stored show ?thesis by simp
  qed
  show ?thesis
    using stored string array[of xs] array[of "x # xs"] array[of "[x]"]
    by (simp add: choice_key_def)
qed

definition response_of :: "answer_row \<Rightarrow> response_with_answers" where
  "response_of row =
     \<lparr>r_id = ''r1'', survey_id = ''s1'', participant_id = None,
      submitted_at = ''2024-05-01T10:00:00Z'', r_answers = [row]\<rparr>"

theorem decode_encode_roundtrip_witness:
  "hd (answersToInsert ''r1'' [(''q2'', JString ''hello'')])
     = \<lparr>response_id = ''r1'', question_id = ''q2'', answer_text = Some ''hello'',
        answer_choice = None\<rparr>
   \<and> answerValue name_question
        (response_of (hd (answersToInsert ''r1'' [(''q2'', JString ''hello'')])))
     = Some (JString ''hello'')
   \<and> hd (answersToInsert ''r1'' [(''q1'', JArray [''Agree''])])
     = \<lparr>response_id = ''r1'', question_id = ''q1'', answer_text = None,
        answer_choice = Some ''[\"Agree\"]''\<rparr>
   \<and> map_option choice_key
        (answer_choice_value (hd (answersToInsert ''r1'' [(''q1'', JArray [''Agree''])])))
     = Some (JString ''Agree'')
   \<and> answerValue colour_question
        (response_of (hd (answersToInsert ''r1'' [(''q1'', JArray [''Agree''])])))
     = Some (JString ''Agree'')"
proof -
  let ?text_row = "hd (answersToInsert ''r1'' [(''q2'', JString ''hello'')])"
  let ?choice_row = "hd (answersToInsert ''r1'' [(''q1'', JArray [''Agree''])])"
  have rows: "?text_row = \<lparr>response_id = ''r1'', question_id = ''q2'',
        answer_text = Some ''hello'', answer_choice = None\<rparr>"
    "?choice_row = \<lparr>response_id = ''r1'', question_id = ''q1'', answer_text = None,
        answer_choice = Some ''[\"Agree\"]''\<rparr>"
    by (simp_all add: answersToInsert_def Object_entries_single QuoteJSONString_def
        escape_char_def dquote_def backslash_def charCode_def)
  have ids: "q_id name_question = ''q2''" "q_id colour_question = ''q1''"
    by (simp_all add: example_defs)
  have resp: "r_answers (response_of row) = [row]" for row
    by (simp add: response_of_def)
  note text_case = decode_encode_roundtrip[OF refl ids(1) resp, where rid = "''r1''"
      and v = "JString ''hello''" and s = "''hello''"]
  note choice_case = decode_encode_roundtrip[OF refl ids(2) resp, where rid = "''r1''"
      and v = "JArray [''Agree'']" and xs = "[]" and x = "''Agree''"]
  from text_case
  have hello: "answerValue name_question (response_of ?text_row) = Some (JString ''hello'')"
    by blast
  from choice_case
  have agree: "map_option choice_key (answer_choice_value ?choice_row) = Some (JString ''Agree'')"
    "answerValue colour_question (response_of ?choice_row) = Some (JString ''Agree'')"
    by blast+
  show ?thesis
    by (intro conjI rows hello agree)
qed

section \<open>Properties of the CSV export\<close>

definition two_question_survey :: survey_with_questions where
  "two_question_survey = example_survey\<lparr>questions := [colour_question, name_question]\<rparr>"

definition first_response :: response_with_answers where
  "first_response =
     \<lparr>r_id = ''r1'', survey_id = ''s1'', participant_id = None,
      submitted_at = ''2024-05-01T10:00:00Z'',
      r_answers =
        [\<lparr>response_id = ''r1'', question_id = ''q1'', answer_text = Some ''Red'',
          answer_choice = None\<rparr>,
         \<lparr>response_id = ''r1'', question_id = ''q2'', answer_text = Some ''He said \"hi\"'',
          answer_choice = None\<rparr>]\<rparr>"

definition second_response :: response_with_answers where
  "second_response =
     \<lparr>r_id = ''r2'', survey_id = ''s1'', participant_id = None,
      submitted_at = ''2024-05-02T11:30:00Z'',
      r_answers =
        [\<lparr>response_id = ''r2'', question_id = ''q1'', answer_text = None,
          answer_choice = Some ''[\"Red\",\"Blue\"]''\<rparr>]\<rparr>"

text \<open>
  What \<^verbatim>\<open>format\<close> gives for the time stamps above in a browser whose time zone is UTC.
\<close>

definition utc_format :: "string \<Rightarrow> string" where
  "utc_format t = take 10 t @ '' '' @ take 8 (drop 11 t)"

lemma example_export:
  "exportToCSV utc_format (Some two_question_survey) [first_response, second_response]
     = Download ''example-responses.csv''
        (''\"Response ID\",\"Submitted At\",\"Favourite colour?\",\"Your name\"'' @ [CHR 0x0A]
         @ ''\"r1\",\"2024-05-01 10:00:00\",\"Red\",\"He said \"\"hi\"\"\"'' @ [CHR 0x0A]
         @ ''\"r2\",\"2024-05-02 11:30:00\",\"Red, Blue\",\"\"'')"
  by code_simp

lemma example_rows:
  "those (map (csv_row utc_format two_question_survey) [first_response, second_response])
     = Some [[JString ''r1'', JString ''2024-05-01 10:00:00'', JString ''Red'',
              JString ''He said \"hi\"''],
             [JString ''r2'', JString ''2024-05-02 11:30:00'', JString ''Red, Blue'',
              JString []]]"
  by code_simp

text \<open>
  C7, as stated, fails: the header row does not consist of the question texts alone, and a
  row has more columns than there are questions. The table starts with the two columns
  \<^verbatim>\<open>Response ID\<close> and \<^verbatim>\<open>Submitted At\<close>. And without responses nothing is exported, not
  even the header row.
\<close>

theorem csv_header_has_two_more_columns:
  "map question_text (questions two_question_survey) = [''Favourite colour?'', ''Your name'']
   \<and> csv_headers two_question_survey
       = [JString ''Response ID'', JString ''Submitted At'', JString ''Favourite colour?'',
          JString ''Your name'']
   \<and> exportToCSV utc_format (Some two_question_survey) [first_response, second_response]
       = Download ''example-responses.csv''
          (''\"Response ID\",\"Submitted At\",\"Favourite colour?\",\"Your name\"'' @ [CHR 0x0A]
           @ ''\"r1\",\"2024-05-01 10:00:00\",\"Red\",\"He said \"\"hi\"\"\"'' @ [CHR 0x0A]
           @ ''\"r2\",\"2024-05-02 11:30:00\",\"Red, Blue\",\"\"'')
   \<and> exportToCSV utc_format (Some two_question_survey) [] = NoExport"
  using example_export
  by (simp add: csv_headers_def two_question_survey_def example_defs exportToCSV_def)

text \<open>
  C7, amended: when there is at least one response (and every stored choice that is read
  parses), the export is the file \<^verbatim>\<open>{slug}-responses.csv\<close> holding one header row and one
  row per response, joined by line feeds. The header cells are \<^verbatim>\<open>Response ID\<close>,
  \<^verbatim>\<open>Submitted At\<close> and then the question texts; a response's row holds its id, its
  formatted submission time and then one cell per question in survey order, the value of
  \<^verbatim>\<open>answerValue\<close>. The cells of a row are joined by commas; every cell is wrapped in double
  quotes with each embedded double quote doubled; a stored choice that is an array is
  shown with its elements joined by a comma and a space.
\<close>

theorem csv_export_table:
  assumes "rs \<noteq> []"
    and "those (map (csv_row fmt sv) rs) = Some rows"
  shows "exportToCSV fmt (Some sv) rs
      = Download (slug sv @ ''-responses.csv'')
          (join [CHR 0x0A] (map (\<lambda>row. join '','' (map csv_cell row)) (csv_headers sv # rows)))
    \<and> length (csv_headers sv # rows) = 1 + length rs
    \<and> csv_headers sv
      = map JString (''Response ID'' # ''Submitted At'' # map question_text (questions sv))
    \<and> (\<forall>i < length rs. \<exists>cells.
          rows ! i = JString (r_id (rs ! i))
                     # JString (fmt (submitted_at (rs ! i))) # cells
          \<and> length cells = length (questions sv)
          \<and> (\<forall>j < length (questions sv).
                answerValue (questions sv ! j) (rs ! i) = Some (cells ! j)))
    \<and> (\<forall>s. csv_cell (JString s) = dquote # double_quotes s @ [dquote])
    \<and> double_quotes [] = []
    \<and> (\<forall>c s. double_quotes (c # s)
          = (if c = dquote then [dquote, dquote] else [c]) @ double_quotes s)
    \<and> (\<forall>q r a js xs.
          find (\<lambda>a. question_id a = q_id q) (r_answers r) = Some a
          \<and> \<not> truthy_text (answer_text a) \<and> answer_choice a = Some js
          \<and> JSON_parse js = Some (JArray xs)
          \<longrightarrow> answerValue q r = Some (JString (join '', '' xs)))"
proof -
  have export: "exportToCSV fmt (Some sv) rs
      = Download (slug sv @ ''-responses.csv'')
          (join [CHR 0x0A] (map (\<lambda>row. join '','' (map csv_cell row)) (csv_headers sv # rows)))"
    using assms by (simp add: exportToCSV_def csvContent_def)
  have rows: "length rows = length rs"
    "\<forall>i < length rs. csv_row fmt sv (rs ! i) = Some (rows ! i)"
    using those_map_Some[OF assms(2)] by simp_all
  have headers: "csv_headers sv
      = map JString (''Response ID'' # ''Submitted At'' # map question_text (questions sv))"
    by (simp add: csv_headers_def comp_def)
  have row: "\<exists>cells.
          rows ! i = JString (r_id (rs ! i))
                     # JString (fmt (submitted_at (rs ! i))) # cells
          \<and> length cells = length (questions sv)
          \<and> (\<forall>j < length (questions sv).
                answerValue (questions sv ! j) (rs ! i) = Some (cells ! j))"
    if "i < length rs" for i
  proof -
    from rows(2) that have r: "csv_row fmt sv (rs ! i) = Some (rows ! i)"
      by simp
    then obtain cells where cells:
      "those (map (\<lambda>question. answerValue question (rs ! i)) (questions sv)) = Some cells"
      "rows ! i = JString (r_id (rs ! i))
                  # JString (fmt (submitted_at (rs ! i))) # cells"
      by (auto simp: csv_row_def split: option.splits)
    from those_map_Some[OF cells(1)] cells(2) show ?thesis
      by simp
  qed
  have len: "length (csv_headers sv # rows) = 1 + length rs"
    using rows(1) by simp
  have all_rows: "\<forall>i < length rs. \<exists>cells.
          rows ! i = JString (r_id (rs ! i))
                     # JString (fmt (submitted_at (rs ! i))) # cells
          \<and> length cells = length (questions sv)
          \<and> (\<forall>j < length (questions sv).
                answerValue (questions sv ! j) (rs ! i) = Some (cells ! j))"
    using row by blast
  have cell: "\<forall>s. csv_cell (JString s) = dquote # double_quotes s @ [dquote]"
    by (simp add: csv_cell_def)
  have dq_Nil: "double_quotes [] = []"
    by (simp add: double_quotes_def)
  have dq_Cons: "\<forall>c s. double_quotes (c # s)
      = (if c = dquote then [dquote, dquote] else [c]) @ double_quotes s"
    by (simp add: double_quotes_def)
  have multi: "\<forall>q r a js xs.
          find (\<lambda>a. question_id a = q_id q) (r_answers r) = Some a
          \<and> \<not> truthy_text (answer_text a) \<and> answer_choice a = Some js
          \<and> JSON_parse js = Some (JArray xs)
          \<longrightarrow> answerValue q r = Some (JString (join '', '' xs))"
    using answerValue_array by blast
  show ?thesis
    by (intro conjI export len headers all_rows cell dq_Nil dq_Cons multi)
qed

theorem csv_export_table_witness:
  "exportToCSV utc_format (Some two_question_survey) [first_response, second_response]
     = Download ''example-responses.csv''
        (''\"Response ID\",\"Submitted At\",\"Favourite colour?\",\"Your name\"'' @ [CHR 0x0A]
         @ ''\"r1\",\"2024-05-01 10:00:00\",\"Red\",\"He said \"\"hi\"\"\"'' @ [CHR 0x0A]
         @ ''\"r2\",\"2024-05-02 11:30:00\",\"Red, Blue\",\"\"'')
   \<and> csv_cell (JString ''He said \"hi\"'') = ''\"He said \"\"hi\"\"\"''
   \<and> length (csv_headers two_question_survey
        # [[JString ''r1'', JString ''2024-05-01 10:00:00'', JString ''Red'',
            JString ''He said \"hi\"''],
           [JString ''r2'', JString ''2024-05-02 11:30:00'', JString ''Red, Blue'',
            JString []]]) = 3"
proof -
  have ne: "[first_response, second_response] \<noteq> []"
    by simp
  note w = csv_export_table[OF ne example_rows]
  from w have "length (csv_headers two_question_survey
        # [[JString ''r1'', JString ''2024-05-01 10:00:00'', JString ''Red'',
            JString ''He said \"hi\"''],
           [JString ''r2'', JString ''2024-05-02 11:30:00'', JString ''Red, Blue'',
            JString []]]) = 1 + length [first_response, second_response]"
    by blast
  moreover from w have "csv_cell (JString ''He said \"hi\"'')
      = dquote # double_quotes ''He said \"hi\"'' @ [dquote]"
    by blast
  then have "csv_cell (JString ''He said \"hi\"'') = ''\"He said \"\"hi\"\"\"''"
    by (simp add: double_quotes_def dquote_def)
  ultimately show ?thesis
    using example_export by simp
qed

section \<open>Properties of the question analytics\<close>

lemma map_of_obj_set: "map_of (obj_set ob k v) = (map_of ob)(k \<mapsto> v)"
  by (induction ob) (auto simp: fun_eq_iff)

lemma keys_obj_set: "fst ` set (obj_set ob k v) = insert k (fst ` set ob)"
proof (induction ob)
  case Nil
  then show ?case by simp
next
  case (Cons p ob)
  then show ?case
    by (cases p) (simp add: insert_commute)
qed

lemma distinct_obj_set: "distinct (map fst ob) \<Longrightarrow> distinct (map fst (obj_set ob k v))"
proof (induction ob)
  case Nil
  then show ?case by simp
next
  case (Cons p ob)
  obtain k' v' where p: "p = (k', v')"
    by (cases p)
  show ?case
  proof (cases "k' = k")
    case True
    with Cons.prems p show ?thesis by simp
  next
    case False
    have "k' \<notin> set (map fst (obj_set ob k v))"
      using Cons.prems p False by (simp add: keys_obj_set)
    with Cons p False show ?thesis by simp
  qed
qed

lemma distinct_Object_entries:
  assumes "distinct (map fst ob)"
  shows "distinct (map fst (Object_entries ob))"
proof -
  have "set (map fst (Object_entries ob)) = set (map fst ob)"
    by (simp add: set_Object_entries)
  moreover have "length (map fst (Object_entries ob)) = length (map fst ob)"
    by (simp add: length_Object_entries)
  ultimately have "card (set (map fst (Object_entries ob))) = length (map fst (Object_entries ob))"
    using distinct_card[OF assms] by simp
  then show ?thesis
    by (rule card_distinct)
qed

text \<open>The tally is produced when every stored choice that is read has a parsed value.\<close>

lemma those_map_defined: "\<forall>x \<in> set xs. f x \<noteq> None \<Longrightarrow> \<exists>ys. those (map f xs) = Some ys"
  by (induction xs) auto

lemma answer_key_defined: "answer_key a \<noteq> None \<longleftrightarrow> answer_choice_value a \<noteq> None"
  by (simp add: answer_key_def split: option.splits)

lemma count_answers_defined:
  "\<forall>a \<in> set as. answer_choice_value a \<noteq> None \<Longrightarrow> \<exists>counts. count_answers acc as = Some counts"
proof (induction as arbitrary: acc)
  case Nil
  show ?case by simp
next
  case (Cons a as)
  from Cons.prems have "answer_choice_value a \<noteq> None"
    by simp
  then have "answer_key a \<noteq> None"
    by (rule answer_key_defined[THEN iffD2])
  then obtain key where key: "answer_key a = Some key"
    by blast
  from Cons.prems have "\<forall>a \<in> set as. answer_choice_value a \<noteq> None"
    by simp
  from Cons.IH[OF this] key show ?case
    by simp
qed

lemma distinct_assigned:
  "distinct (map fst ob) \<Longrightarrow> distinct (map fst (assigned ob k v))"
  by (simp add: assigned_def distinct_obj_set)

lemma count_answers_distinct:
  "count_answers acc as = Some counts \<Longrightarrow> distinct (map fst acc) \<Longrightarrow> distinct (map fst counts)"
proof (induction as arbitrary: acc)
  case Nil
  then show ?case by simp
next
  case (Cons a as)
  from Cons.prems(1) obtain key where key: "answer_key a = Some key"
    by (auto split: option.splits)
  with Cons.prems(1)
  have "count_answers (assigned acc key (incremented acc key)) as = Some counts"
    by simp
  moreover have "distinct (map fst (assigned acc key (incremented acc key)))"
    using Cons.prems(2) by (rule distinct_assigned)
  ultimately show ?case
    by (rule Cons.IH)
qed

text \<open>
  For a key that names no member of \<^verbatim>\<open>Object.prototype\<close> the tally is the number of answers
  with that key.
\<close>

lemma plain_key_not_proto: "Object_prototype k = None \<Longrightarrow> k \<noteq> ''__proto__''"
  by (auto simp: Object_prototype_def split: if_splits)

lemma count_answers_tally:
  assumes "count_answers acc as = Some counts"
    and "Object_prototype k = None"
    and "map_of acc k = None \<or> (\<exists>m. map_of acc k = Some (Num m))"
  shows "map_of counts k =
      (if map_of acc k = None \<and> filter (\<lambda>a. answer_key a = Some k) as = [] then None
       else Some (Num ((case map_of acc k of Some (Num m) \<Rightarrow> m | _ \<Rightarrow> 0)
                       + length (filter (\<lambda>a. answer_key a = Some k) as))))"
  using assms(1,3)
proof (induction as arbitrary: acc)
  case Nil
  then show ?case by auto
next
  case (Cons a as)
  from Cons.prems(1) obtain key where key: "answer_key a = Some key"
    by (auto split: option.splits)
  let ?acc = "assigned acc key (incremented acc key)"
  from Cons.prems(1) key have run: "count_answers ?acc as = Some counts"
    by simp
  have proto: "k \<noteq> ''__proto__''"
    using assms(2) by (rule plain_key_not_proto)
  show ?case
  proof (cases "key = k")
    case True
    have inc: "incremented acc k = Num ((case map_of acc k of Some (Num m) \<Rightarrow> m | _ \<Rightarrow> 0) + 1)"
      using Cons.prems(2) assms(2) by (auto simp: incremented_def)
    have stored: "map_of ?acc k
        = Some (Num ((case map_of acc k of Some (Num m) \<Rightarrow> m | _ \<Rightarrow> 0) + 1))"
      using True proto inc by (simp add: assigned_def map_of_obj_set)
    then have "map_of ?acc k = None \<or> (\<exists>m. map_of ?acc k = Some (Num m))"
      by simp
    from Cons.IH[OF run this] stored key True show ?thesis
      by simp
  next
    case False
    have same: "map_of ?acc k = map_of acc k"
      using False by (simp add: assigned_def map_of_obj_set)
    then have "map_of ?acc k = None \<or> (\<exists>m. map_of ?acc k = Some (Num m))"
      using Cons.prems(2) by simp
    from Cons.IH[OF run this] same key False show ?thesis
      by simp
  qed
qed

lemma chart_entries_pairs:
  "map (\<lambda>d. (fullAnswer d, count d)) (chart_entries counts) = Object_entries counts"
  by (simp add: chart_entries_def comp_def case_prod_unfold)

lemma answer_key_cases:
  "answer_choice a = Some js \<and> JSON_parse js = Some (JArray (x # xs)) \<longrightarrow> answer_key a = Some x"
  "answer_choice a = Some js \<and> JSON_parse js = Some (JString t) \<longrightarrow> answer_key a = Some t"
  "\<not> truthy_text (answer_choice a) \<and> answer_text a = Some t \<longrightarrow> answer_key a = Some t"
proof -
  have ne: "JSON_parse js = Some v \<Longrightarrow> js \<noteq> []" for v
    using JSON_parse_Nil by auto
  show "answer_choice a = Some js \<and> JSON_parse js = Some (JArray (x # xs))
      \<longrightarrow> answer_key a = Some x"
    using ne[of "JArray (x # xs)"]
    by (auto simp: answer_key_def answer_choice_value_def choice_key_def)
  show "answer_choice a = Some js \<and> JSON_parse js = Some (JString t) \<longrightarrow> answer_key a = Some t"
    using ne[of "JString t"]
    by (auto simp: answer_key_def answer_choice_value_def choice_key_def)
  show "\<not> truthy_text (answer_choice a) \<and> answer_text a = Some t \<longrightarrow> answer_key a = Some t"
    by (auto simp: answer_key_def answer_choice_value_def choice_key_def)
qed

text \<open>
  The entry of one question. For a \<^verbatim>\<open>multiple_choice\<close> or \<^verbatim>\<open>likert_scale\<close> question,
  \<^verbatim>\<open>chartData\<close> has at most one item per key, and for every key that names no member of
  \<^verbatim>\<open>Object.prototype\<close> it has an item exactly when some answer has that key, with the
  number of such answers as its count. For the other question types \<^verbatim>\<open>chartData\<close> is empty.
\<close>

lemma question_analytics_tally:
  assumes "question_analytics_of q rs = Some qa"
  shows "questionId qa = q_id q
    \<and> responses qa = questionResponses q rs
    \<and> (question_type q \<noteq> multiple_choice \<and> question_type q \<noteq> likert_scale
          \<longrightarrow> chartData qa = [])
    \<and> (question_type q = multiple_choice \<or> question_type q = likert_scale \<longrightarrow>
          distinct (map fullAnswer (chartData qa))
          \<and> (\<forall>k v. Object_prototype k = None \<longrightarrow>
                ((\<exists>d \<in> set (chartData qa). fullAnswer d = k \<and> count d = v)
                 \<longleftrightarrow> (\<exists>n. v = Num n \<and> 0 < n
                        \<and> n = length (filter (\<lambda>a. answer_key a = Some k)
                                (questionResponses q rs)))))
          \<and> (\<forall>d \<in> set (chartData qa).
                answer d = take 20 (fullAnswer d)
                           @ (if length (fullAnswer d) > 20 then ''...'' else [])))"
proof -
  let ?as = "questionResponses q rs"
  have listed: "questionId qa = q_id q" "responses qa = ?as"
    using assms by (auto simp: question_analytics_of_def split: option.splits if_splits)
  have free_text: "chartData qa = []"
    if "question_type q \<noteq> multiple_choice \<and> question_type q \<noteq> likert_scale"
    using assms that by (auto simp: question_analytics_of_def)
  have choice: "distinct (map fullAnswer (chartData qa))
          \<and> (\<forall>k v. Object_prototype k = None \<longrightarrow>
                ((\<exists>d \<in> set (chartData qa). fullAnswer d = k \<and> count d = v)
                 \<longleftrightarrow> (\<exists>n. v = Num n \<and> 0 < n
                        \<and> n = length (filter (\<lambda>a. answer_key a = Some k) ?as))))
          \<and> (\<forall>d \<in> set (chartData qa).
                answer d = take 20 (fullAnswer d)
                           @ (if length (fullAnswer d) > 20 then ''...'' else []))"
    if "question_type q = multiple_choice \<or> question_type q = likert_scale"
  proof -
    from assms that obtain counts where counts: "count_answers [] ?as = Some counts"
      and chart: "chartData qa = chart_entries counts"
      by (auto simp: question_analytics_of_def split: option.splits)
    have d: "distinct (map fst counts)"
      using count_answers_distinct[OF counts] by simp
    have tally: "map_of counts k =
          (if filter (\<lambda>a. answer_key a = Some k) ?as = [] then None
           else Some (Num (length (filter (\<lambda>a. answer_key a = Some k) ?as))))"
      if "Object_prototype k = None" for k
      using count_answers_tally[OF counts that] by simp
    have pairs: "map (\<lambda>d. (fullAnswer d, count d)) (chartData qa) = Object_entries counts"
      unfolding chart by (rule chart_entries_pairs)
    have keys: "map fullAnswer (chartData qa) = map fst (Object_entries counts)"
      unfolding chart by (simp add: chart_entries_def comp_def case_prod_unfold)
    have dist: "distinct (map fullAnswer (chartData qa))"
      unfolding keys using d by (rule distinct_Object_entries)
    have mem: "(\<exists>d \<in> set (chartData qa). fullAnswer d = k \<and> count d = v)
        \<longleftrightarrow> (k, v) \<in> set counts" for k v
    proof -
      have "(\<exists>d \<in> set (chartData qa). fullAnswer d = k \<and> count d = v)
          \<longleftrightarrow> (k, v) \<in> set (map (\<lambda>d. (fullAnswer d, count d)) (chartData qa))"
        by force
      then show ?thesis
        unfolding pairs by (simp add: set_Object_entries)
    qed
    have "(k, v) \<in> set counts
        \<longleftrightarrow> (\<exists>n. v = Num n \<and> 0 < n
              \<and> n = length (filter (\<lambda>a. answer_key a = Some k) ?as))"
      if "Object_prototype k = None" for k v
      using map_of_eq_Some_iff[OF d, of k v] tally[OF that]
      by (auto split: if_splits)
    with mem have dist_counts:
      "\<forall>k v. Object_prototype k = None \<longrightarrow>
                ((\<exists>d \<in> set (chartData qa). fullAnswer d = k \<and> count d = v)
                 \<longleftrightarrow> (\<exists>n. v = Num n \<and> 0 < n
                        \<and> n = length (filter (\<lambda>a. answer_key a = Some k) ?as)))"
      by simp
    have label: "\<forall>d \<in> set (chartData qa).
                answer d = take 20 (fullAnswer d)
                           @ (if length (fullAnswer d) > 20 then ''...'' else [])"
      unfolding chart by (auto simp: chart_entries_def)
    from dist dist_counts label show ?thesis by blast
  qed
  show ?thesis
    using listed free_text choice by blast
qed

text \<open>
  The analytics of a survey are produced, one entry per question in survey order, when
  every stored choice has a parsed value.
\<close>

lemma questionAnalytics_defined:
  assumes "\<forall>r \<in> set rs. \<forall>a \<in> set (r_answers r). answer_choice_value a \<noteq> None"
  shows "\<exists>qas. questionAnalytics qs rs = Some qas \<and> length qas = length qs
    \<and> (\<forall>i < length qs. question_analytics_of (qs ! i) rs = Some (qas ! i))"
proof -
  have "question_analytics_of q rs \<noteq> None" for q
  proof -
    have "\<forall>a \<in> set (questionResponses q rs). answer_choice_value a \<noteq> None"
      using assms by (auto simp: questionResponses_def)
    then obtain counts where "count_answers [] (questionResponses q rs) = Some counts"
      using count_answers_defined by blast
    then show ?thesis
      by (simp add: question_analytics_of_def)
  qed
  then have "\<forall>q \<in> set qs. question_analytics_of q rs \<noteq> None"
    by simp
  then obtain qas where qas: "those (map (\<lambda>question. question_analytics_of question rs) qs) = Some qas"
    using those_map_defined[of qs "\<lambda>question. question_analytics_of question rs"] by blast
  from those_map_Some[OF qas] qas show ?thesis
    by (simp add: questionAnalytics_def)
qed

definition choice_responses :: "response_with_answers list" where
  "choice_responses =
     [\<lparr>r_id = ''r1'', survey_id = ''s1'', participant_id = None,
       submitted_at = ''2024-05-01T10:00:00Z'',
       r_answers =
         [\<lparr>response_id = ''r1'', question_id = ''q1'', answer_text = Some ''A'',
           answer_choice = None\<rparr>,
          \<lparr>response_id = ''r1'', question_id = ''q2'', answer_text = Some ''Ann'',
           answer_choice = None\<rparr>]\<rparr>,
      \<lparr>r_id = ''r2'', survey_id = ''s1'', participant_id = None,
       submitted_at = ''2024-05-02T11:30:00Z'',
       r_answers =
         [\<lparr>response_id = ''r2'', question_id = ''q1'', answer_text = None,
           answer_choice = Some ''[\"A\"]''\<rparr>]\<rparr>,
      \<lparr>r_id = ''r3'', survey_id = ''s1'', participant_id = None,
       submitted_at = ''2024-05-03T09:15:00Z'',
       r_answers =
         [\<lparr>response_id = ''r3'', question_id = ''q1'', answer_text = None,
           answer_choice = Some ''[\"B\",\"C\"]''\<rparr>]\<rparr>]"

definition colour_analytics :: question_analytics where
  "colour_analytics =
     \<lparr>questionId = ''q1'', questionText = ''Favourite colour?'',
      questionType = multiple_choice,
      responses =
        [\<lparr>response_id = ''r1'', question_id = ''q1'', answer_text = Some ''A'',
          answer_choice = None\<rparr>,
         \<lparr>response_id = ''r2'', question_id = ''q1'', answer_text = None,
          answer_choice = Some ''[\"A\"]''\<rparr>,
         \<lparr>response_id = ''r3'', question_id = ''q1'', answer_text = None,
          answer_choice = Some ''[\"B\",\"C\"]''\<rparr>],
      chartData =
        [\<lparr>answer = ''A'', count = Num 2, fullAnswer = ''A''\<rparr>,
         \<lparr>answer = ''B'', count = Num 1, fullAnswer = ''B''\<rparr>]\<rparr>"

definition name_analytics :: question_analytics where
  "name_analytics =
     \<lparr>questionId = ''q2'', questionText = ''Your name'', questionType = short_answer,
      responses =
        [\<lparr>response_id = ''r1'', question_id = ''q2'', answer_text = Some ''Ann'',
          answer_choice = None\<rparr>],
      chartData = []\<rparr>"

text \<open>The example of the specification: answers decoding to A, A and B.\<close>

lemma example_analytics:
  "questionAnalytics [colour_question, name_question] choice_responses
     = Some [colour_analytics, name_analytics]"
  by code_simp

text \<open>
  A question that offers the option \<^verbatim>\<open>constructor\<close>, and the response that
  \<^verbatim>\<open>submitSurvey\<close> stores when that option or another is picked.
\<close>

definition method_question :: question where
  "method_question =
     \<lparr>q_id = ''q7'', question_text = ''Which method runs first?'',
      question_type = multiple_choice, options = Some ''[\"constructor\",\"render\"]'',
      order_index = 0, required = True\<rparr>"

definition method_answer :: "string \<Rightarrow> string \<Rightarrow> response_with_answers" where
  "method_answer rid picked =
     \<lparr>r_id = rid, survey_id = ''s2'', participant_id = None,
      submitted_at = ''2024-05-01T10:00:00Z'',
      r_answers = answersToInsert rid [(''q7'', JString picked)]\<rparr>"

text \<open>
  C8 does not hold of the code for an answer whose key names a member of
  \<^verbatim>\<open>Object.prototype\<close>. With two answers \<^verbatim>\<open>constructor\<close> and one answer \<^verbatim>\<open>render\<close> to a
  \<^verbatim>\<open>multiple_choice\<close> question, the distribution of the claim is
  \<^verbatim>\<open>{constructor: 2, render: 1}\<close>. \<^verbatim>\<open>generateAnalytics\<close> gives \<^verbatim>\<open>render\<close> the count 1, and
  gives \<^verbatim>\<open>constructor\<close> a string in place of a count, against the declaration
  \<^verbatim>\<open>Record<string, number>\<close> of \<^verbatim>\<open>answerCounts\<close>: the first read of
  \<^verbatim>\<open>answerCounts[key]\<close> finds the inherited function, and \<^verbatim>\<open>+ 1\<close> appends to its text.
\<close>

theorem constructor_option_gets_text_count:
  "map_option (map chartData)
     (questionAnalytics [method_question]
        [method_answer ''r1'' ''constructor'', method_answer ''r2'' ''render'',
         method_answer ''r3'' ''constructor''])
     = Some [[\<lparr>answer = ''constructor'',
               count = Str ''function Object() { [native code] }11'',
               fullAnswer = ''constructor''\<rparr>,
              \<lparr>answer = ''render'', count = Num 1, fullAnswer = ''render''\<rparr>]]
   \<and> map (\<lambda>k. length (filter (\<lambda>a. answer_key a = Some k)
           (questionResponses method_question
              [method_answer ''r1'' ''constructor'', method_answer ''r2'' ''render'',
               method_answer ''r3'' ''constructor''])))
       [''constructor'', ''render'']
     = [2, 1]"
  by code_simp

section \<open>The survey editor\<close>

subsection \<open>Validation schemas\<close>

text \<open>
  The zod schemas of \<^verbatim>\<open>lib/validations\<close> on well-typed form data. A schema gives the list of
  its issues' messages; the data is accepted when the list is empty.
\<close>

record question_form =
  f_question_text :: string
  f_question_type :: question_type
  f_options :: "string list option"
  f_required :: bool
  f_order_index :: int

record survey_form =
  f_title :: string
  f_description :: "string option"
  f_slug :: string
  f_status :: survey_status

record survey_with_questions_form = survey_form +
  f_questions :: "question_form list"

text \<open>\<^verbatim>\<open>/^[a-z0-9-]+$/\<close>\<close>

definition slug_char :: "char \<Rightarrow> bool" where
  "slug_char c = ((97 \<le> charCode c \<and> charCode c \<le> 122) \<or> is_digit c \<or> c = CHR ''-'')"

definition slug_regex :: "string \<Rightarrow> bool" where
  "slug_regex s = (s \<noteq> [] \<and> list_all slug_char s)"

definition surveySchema :: "'a survey_form_scheme \<Rightarrow> string list" where
  "surveySchema data =
     (if length (f_title data) < 1 then [''Title is required''] else [])
     @ (if length (f_title data) > 200 then [''Title too long''] else [])
     @ (if length (f_slug data) < 1 then [''Slug is required''] else [])
     @ (if \<not> slug_regex (f_slug data)
        then [''Slug must contain only lowercase letters, numbers, and hyphens''] else [])"

definition questionSchema :: "question_form \<Rightarrow> string list" where
  "questionSchema data =
     (if length (f_question_text data) < 1 then [''Question text is required''] else [])
     @ (if f_order_index data < 0 then [''Number must be greater than or equal to 0''] else [])
     @ (if (if f_question_type data = multiple_choice
            then (case f_options data of None \<Rightarrow> False | Some os \<Rightarrow> length os \<ge> 2)
            else True)
        then [] else [''Multiple choice questions must have at least 2 options''])"

definition surveyWithQuestionsSchema :: "survey_with_questions_form \<Rightarrow> string list" where
  "surveyWithQuestionsSchema data =
     surveySchema data
     @ (if length (f_questions data) < 1 then [''At least one question is required''] else [])
     @ concat (map questionSchema (f_questions data))"

subsection \<open>Slug generation\<close>

text \<open>
  \<^verbatim>\<open>generateSlug\<close> of the create page. A title is a sequence of UTF-16 code units, each a
  natural number. \<^verbatim>\<open>String.prototype.toLowerCase\<close>, the case conversion of Unicode, is a
  parameter of the model: what is proved of \<^verbatim>\<open>generateSlug\<close> holds whatever it returns.
\<close>

type_synonym ustring = "nat list"

text \<open>The characters of \<^verbatim>\<open>\s\<close>, which are also the ones that \<^verbatim>\<open>trim\<close> strips.\<close>

definition is_space :: "nat \<Rightarrow> bool" where
  "is_space u =
     ((9 \<le> u \<and> u \<le> 13) \<or> u = 32 \<or> u = 160 \<or> u = 5760 \<or> (8192 \<le> u \<and> u \<le> 8202)
      \<or> u = 8232 \<or> u = 8233 \<or> u = 8239 \<or> u = 8287 \<or> u = 12288 \<or> u = 65279)"

definition trim :: "ustring \<Rightarrow> ustring" where
  "trim s = rev (dropWhile is_space (rev (dropWhile is_space s)))"

text \<open>\<^verbatim>\<open>s.replace(/[P]+/g, r)\<close>: every maximal run of characters in the class becomes \<open>r\<close>.\<close>

function replace_runs :: "('a \<Rightarrow> bool) \<Rightarrow> 'a list \<Rightarrow> 'a list \<Rightarrow> 'a list" where
  "replace_runs P r [] = []"
| "replace_runs P r (c # cs) =
     (if P c then r @ replace_runs P r (dropWhile P cs) else c # replace_runs P r cs)"
  by pat_completeness auto
termination
proof (relation "measure (\<lambda>(P, r, s). length s)", goal_cases)
  case 1
  show ?case by simp
next
  case (2 P r c cs)
  have "length (dropWhile P cs) \<le> length cs"
    by (rule length_dropWhile_le)
  then show ?case by simp
next
  case (3 P r c cs)
  show ?case by simp
qed

text \<open>The code unit of the hyphen.\<close>

definition hyphen :: nat where
  "hyphen = 45"

text \<open>\<^verbatim>\<open>[^a-z0-9\s-]\<close> is the class of the characters that are removed.\<close>

definition kept_unit :: "nat \<Rightarrow> bool" where
  "kept_unit u =
     ((97 \<le> u \<and> u \<le> 122) \<or> (48 \<le> u \<and> u \<le> 57) \<or> is_space u \<or> u = hyphen)"

definition generateSlug :: "(ustring \<Rightarrow> ustring) \<Rightarrow> ustring \<Rightarrow> ustring" where
  "generateSlug toLowerCase title_text =
     trim (replace_runs (\<lambda>u. u = hyphen) [hyphen]
       (replace_runs is_space [hyphen]
         (filter kept_unit (toLowerCase title_text))))"

text \<open>The class \<^verbatim>\<open>[a-z0-9-]\<close> of the slug rule, on code units.\<close>

definition slug_unit :: "nat \<Rightarrow> bool" where
  "slug_unit u = ((97 \<le> u \<and> u \<le> 122) \<or> (48 \<le> u \<and> u \<le> 57) \<or> u = hyphen)"

text \<open>
  The case conversion on the titles of the examples below. It is
  \<^verbatim>\<open>String.prototype.toLowerCase\<close> on the strings made of ASCII characters, of U+0130
  (capital I with dot above, whose lower case is \<^verbatim>\<open>i\<close> followed by U+0307) and of U+212A
  (the Kelvin sign, whose lower case is \<^verbatim>\<open>k\<close>). These are the only characters outside
  \<^verbatim>\<open>A-Z\<close> whose lower case has an ASCII character.
\<close>

definition lower_unit :: "nat \<Rightarrow> ustring" where
  "lower_unit u =
     (if 65 \<le> u \<and> u \<le> 90 then [u + 32]
      else if u = 304 then [105, 775]
      else if u = 8490 then [107]
      else [u])"

definition lower_case :: "ustring \<Rightarrow> ustring" where
  "lower_case s = concat (map lower_unit s)"

text \<open>The code units of a text of ASCII characters.\<close>

definition units :: "string \<Rightarrow> ustring" where
  "units s = map charCode s"

section \<open>Properties of the survey editor\<close>

text \<open>
  C9, as stated, fails in its demand that the options be non-empty: \<^verbatim>\<open>questionSchema\<close>
  counts the options and does not look at them. It accepts a \<^verbatim>\<open>multiple_choice\<close> question
  whose two options are empty strings.
\<close>

theorem empty_options_accepted:
  "questionSchema
     \<lparr>f_question_text = ''Pick one'', f_question_type = multiple_choice,
      f_options = Some [[], []], f_required = False, f_order_index = 0\<rparr> = []"
  by (simp add: questionSchema_def)

text \<open>
  C9, amended: \<^verbatim>\<open>questionSchema\<close> rejects every \<^verbatim>\<open>multiple_choice\<close> question whose options
  are absent or fewer than two, and accepts one with two or more options, whatever strings
  they are, when its text is non-empty and its order index is not negative. For the other
  question types the options make no difference to the result. A survey without questions
  is rejected by \<^verbatim>\<open>surveyWithQuestionsSchema\<close>.
\<close>

theorem multiple_choice_needs_two_options:
  "(f_question_type q = multiple_choice
      \<and> (f_options q = None \<or> (\<exists>os. f_options q = Some os \<and> length os < 2))
      \<longrightarrow> questionSchema q \<noteq> [])
   \<and> (f_question_type q = multiple_choice \<and> f_options q = Some os \<and> 2 \<le> length os
      \<and> f_question_text q \<noteq> [] \<and> 0 \<le> f_order_index q
      \<longrightarrow> questionSchema q = [])
   \<and> (f_question_type q \<noteq> multiple_choice
      \<longrightarrow> questionSchema (q\<lparr>f_options := opts\<rparr>) = questionSchema q)
   \<and> (f_questions sv = [] \<longrightarrow> surveyWithQuestionsSchema sv \<noteq> [])"
proof (intro conjI impI)
  assume "f_question_type q = multiple_choice
      \<and> (f_options q = None \<or> (\<exists>os. f_options q = Some os \<and> length os < 2))"
  then show "questionSchema q \<noteq> []"
    by (auto simp: questionSchema_def)
next
  assume "f_question_type q = multiple_choice \<and> f_options q = Some os \<and> 2 \<le> length os
      \<and> f_question_text q \<noteq> [] \<and> 0 \<le> f_order_index q"
  then show "questionSchema q = []"
    by (simp add: questionSchema_def)
next
  assume "f_question_type q \<noteq> multiple_choice"
  then show "questionSchema (q\<lparr>f_options := opts\<rparr>) = questionSchema q"
    by (simp add: questionSchema_def)
next
  assume "f_questions sv = []"
  then show "surveyWithQuestionsSchema sv \<noteq> []"
    by (simp add: surveyWithQuestionsSchema_def)
qed

definition pick_one :: question_form where
  "pick_one =
     \<lparr>f_question_text = ''Pick one'', f_question_type = multiple_choice,
      f_options = Some [''Yes''], f_required = True, f_order_index = 0\<rparr>"

definition empty_survey_form :: survey_with_questions_form where
  "empty_survey_form =
     \<lparr>f_title = ''Example'', f_description = None, f_slug = ''example'', f_status = draft,
      f_questions = []\<rparr>"

theorem multiple_choice_needs_two_options_witness:
  "questionSchema pick_one = [''Multiple choice questions must have at least 2 options'']
   \<and> questionSchema (pick_one\<lparr>f_options := Some [''Yes'', ''No'']\<rparr>) = []
   \<and> questionSchema (pick_one\<lparr>f_question_type := short_answer, f_options := None\<rparr>) = []
   \<and> surveyWithQuestionsSchema empty_survey_form = [''At least one question is required'']"
proof -
  have one: "f_question_type pick_one = multiple_choice
      \<and> (f_options pick_one = None \<or> (\<exists>os. f_options pick_one = Some os \<and> length os < 2))"
    by (simp add: pick_one_def)
  let ?two = "pick_one\<lparr>f_options := Some [''Yes'', ''No'']\<rparr>"
  have two: "f_question_type ?two = multiple_choice \<and> f_options ?two = Some [''Yes'', ''No'']
      \<and> 2 \<le> length [''Yes'', ''No''] \<and> f_question_text ?two \<noteq> [] \<and> 0 \<le> f_order_index ?two"
    by (simp add: pick_one_def)
  have none: "f_questions empty_survey_form = []"
    by (simp add: empty_survey_form_def)
  have rejected: "questionSchema pick_one \<noteq> []"
    using multiple_choice_needs_two_options[of pick_one] one by blast
  have accepted: "questionSchema ?two = []"
    using multiple_choice_needs_two_options[of ?two "[''Yes'', ''No'']"] two by blast
  have no_questions: "surveyWithQuestionsSchema empty_survey_form \<noteq> []"
    using multiple_choice_needs_two_options[where sv = empty_survey_form] none by blast
  have "questionSchema pick_one = [''Multiple choice questions must have at least 2 options'']"
    by (simp add: questionSchema_def pick_one_def)
  moreover have "questionSchema (pick_one\<lparr>f_question_type := short_answer, f_options := None\<rparr>) = []"
    by (simp add: questionSchema_def pick_one_def)
  moreover have "surveyWithQuestionsSchema empty_survey_form = [''At least one question is required'']"
    by (simp add: surveyWithQuestionsSchema_def surveySchema_def empty_survey_form_def
        slug_regex_def slug_char_def charCode_def is_digit_def)
  ultimately show ?thesis
    using accepted rejected no_questions by simp
qed

subsection \<open>Slugs\<close>

lemma set_replace_runs: "set (replace_runs P r s) \<subseteq> set r \<union> {c \<in> set s. \<not> P c}"
proof (induction P r s rule: replace_runs.induct)
  case (1 P r)
  show ?case by simp
next
  case (2 P r c cs)
  show ?case
  proof (cases "P c")
    case True
    have "set (dropWhile P cs) \<subseteq> set cs"
      by (auto dest: set_dropWhileD)
    with True "2.IH"(1) show ?thesis by auto
  next
    case False
    with "2.IH"(2) show ?thesis by auto
  qed
qed

text \<open>No two adjacent elements of a list are both \<open>h\<close>.\<close>

fun no_double :: "'a \<Rightarrow> 'a list \<Rightarrow> bool" where
  "no_double h [] = True"
| "no_double h [x] = True"
| "no_double h (x # y # ys) = (\<not> (x = h \<and> y = h) \<and> no_double h (y # ys))"

lemma no_double_nth:
  "no_double h s \<Longrightarrow> Suc i < length s \<Longrightarrow> \<not> (s ! i = h \<and> s ! Suc i = h)"
proof (induction h s arbitrary: i rule: no_double.induct)
  case (3 h x y ys)
  then show ?case
    by (cases i) auto
qed simp_all

lemma no_double_Cons:
  "no_double h s \<Longrightarrow> (s = [] \<or> hd s \<noteq> h \<or> x \<noteq> h) \<Longrightarrow> no_double h (x # s)"
  by (cases s) auto

lemma replace_runs_head:
  "s = [] \<or> \<not> P (hd s) \<Longrightarrow> replace_runs P r s = [] \<or> hd (replace_runs P r s) = hd s"
  by (cases s) auto

lemma replace_runs_no_double:
  assumes "P = (\<lambda>c. c = h)" and "r = [h]"
  shows "no_double h (replace_runs P r s)"
  using assms
proof (induction P r s rule: replace_runs.induct)
  case (1 P r)
  show ?case by simp
next
  case (2 P r c cs)
  show ?case
  proof (cases "P c")
    case True
    let ?rest = "dropWhile P cs"
    have first: "replace_runs P r ?rest = [] \<or> hd (replace_runs P r ?rest) \<noteq> h \<or> h \<noteq> h"
    proof (cases "?rest = []")
      case True
      then have "replace_runs P r ?rest = []"
        by (simp only: replace_runs.simps)
      then show ?thesis ..
    next
      case False
      then have nP: "\<not> P (hd ?rest)"
        by (rule hd_dropWhile)
      then have "replace_runs P r ?rest = [] \<or> hd (replace_runs P r ?rest) = hd ?rest"
        by (intro replace_runs_head) simp
      moreover from nP "2.prems"(1) have "hd ?rest \<noteq> h"
        by simp
      ultimately show ?thesis
        by metis
    qed
    have "no_double h (replace_runs P r ?rest)"
      using "2.IH"(1)[OF True "2.prems"] .
    then have "no_double h (h # replace_runs P r ?rest)"
      using first by (rule no_double_Cons)
    with True "2.prems"(2) show ?thesis by simp
  next
    case False
    with "2.prems"(1) have "c \<noteq> h"
      by simp
    then have first: "replace_runs P r cs = [] \<or> hd (replace_runs P r cs) \<noteq> h \<or> c \<noteq> h"
      by simp
    have "no_double h (replace_runs P r cs)"
      using "2.IH"(2)[OF False "2.prems"] .
    then have "no_double h (c # replace_runs P r cs)"
      using first by (rule no_double_Cons)
    with False show ?thesis by simp
  qed
qed

lemma dropWhile_none: "\<forall>x \<in> set xs. \<not> P x \<Longrightarrow> dropWhile P xs = xs"
  by (cases xs) auto

lemma trim_no_space:
  assumes "\<forall>u \<in> set s. \<not> is_space u"
  shows "trim s = s"
proof -
  have "dropWhile is_space s = s"
    using assms by (rule dropWhile_none)
  moreover have "dropWhile is_space (rev s) = rev s"
    using assms by (intro dropWhile_none) simp
  ultimately show ?thesis
    by (simp add: trim_def)
qed

lemma slug_unit_not_space: "slug_unit u \<Longrightarrow> \<not> is_space u"
  by (auto simp: slug_unit_def is_space_def hyphen_def)

lemma kept_not_space: "kept_unit u \<Longrightarrow> \<not> is_space u \<Longrightarrow> slug_unit u"
  by (auto simp: kept_unit_def slug_unit_def)

lemma slug_before_trim:
  "\<forall>u \<in> set (replace_runs (\<lambda>u. u = hyphen) [hyphen]
       (replace_runs is_space [hyphen] (filter kept_unit (lc t)))). slug_unit u"
proof -
  let ?a = "filter kept_unit (lc t)"
  let ?b = "replace_runs is_space [hyphen] ?a"
  have hy: "slug_unit hyphen"
    by (simp add: slug_unit_def)
  have b: "\<forall>u \<in> set ?b. slug_unit u"
    using set_replace_runs[of is_space "[hyphen]" ?a] hy kept_not_space by auto
  show ?thesis
    using set_replace_runs[of "\<lambda>u. u = hyphen" "[hyphen]" ?b] hy b by auto
qed

lemma generateSlug_untrimmed:
  "generateSlug lc t = replace_runs (\<lambda>u. u = hyphen) [hyphen]
       (replace_runs is_space [hyphen] (filter kept_unit (lc t)))"
  unfolding generateSlug_def
  using slug_before_trim[of lc t] slug_unit_not_space by (intro trim_no_space) blast

text \<open>A code unit of the class of the slug rule is the code of a character of that class.\<close>

lemma slug_unit_char:
  assumes "slug_unit u"
  shows "charCode (char_of u) = u \<and> slug_char (char_of u)"
proof -
  from assms have "u < 256"
    by (auto simp: slug_unit_def hyphen_def)
  then have code: "charCode (char_of u) = u"
    by (simp add: charCode_def)
  show ?thesis
  proof (cases "u = hyphen")
    case False
    with assms code show ?thesis
      by (auto simp: slug_unit_def slug_char_def is_digit_def)
  next
    case True
    have "charCode (CHR ''-'') = hyphen"
      by (simp add: charCode_def hyphen_def)
    with True code have "(of_char (char_of u) :: nat) = of_char (CHR ''-'')"
      by (simp add: charCode_def)
    then have "char_of u = CHR ''-''"
      using inj_of_char[where ?'a = nat] by (rule injD[rotated])
    with code show ?thesis
      by (simp add: slug_char_def)
  qed
qed

lemma slug_units_text:
  assumes "\<forall>u \<in> set us. slug_unit u"
  shows "units (map char_of us) = us \<and> list_all slug_char (map char_of us)"
  using assms slug_unit_char
  by (induction us) (simp_all add: units_def)

text \<open>
  The lower case of the Kelvin sign and of the capital I with dot above has an ASCII
  letter, which \<^verbatim>\<open>generateSlug\<close> keeps. So what a title without ASCII letters gives depends
  on its lower-cased form.
\<close>

lemmas slug_eval =
  generateSlug_def trim_def lower_case_def lower_unit_def units_def charCode_def
  kept_unit_def is_space_def hyphen_def

lemma cased_signs_give_letters:
  "generateSlug lower_case [8490] = units ''k'' \<and> generateSlug lower_case [304] = units ''i''"
  by (simp add: slug_eval)

text \<open>
  C10, as stated, fails in its last part: the pattern of \<^verbatim>\<open>generateSlug\<close> keeps hyphens, so
  a title made of hyphens has no letter and no digit and still gives the slug \<^verbatim>\<open>-\<close>, which
  the slug rule of \<^verbatim>\<open>surveySchema\<close> accepts.
\<close>

theorem hyphen_title_gives_hyphen_slug:
  "generateSlug lower_case (units ''-'') = units ''-''
   \<and> generateSlug lower_case (units ''---'') = units ''-''
   \<and> slug_regex ''-''
   \<and> surveySchema \<lparr>f_title = ''---'', f_description = None, f_slug = ''-'',
        f_status = draft\<rparr> = []"
proof -
  have slugs: "generateSlug lower_case (units ''-'') = units ''-''"
    "generateSlug lower_case (units ''---'') = units ''-''"
    by (simp_all add: slug_eval)
  have rule: "slug_regex ''-''"
    by (simp add: slug_regex_def slug_char_def)
  then have "surveySchema \<lparr>f_title = ''---'', f_description = None, f_slug = ''-'',
        f_status = draft\<rparr> = []"
    by (simp add: surveySchema_def)
  with slugs rule show ?thesis
    by blast
qed

text \<open>
  C10, amended: for every title, \<^verbatim>\<open>generateSlug\<close> returns a string of lower-case ASCII
  letters, digits and hyphens, the characters that the slug rule allows, with no two
  hyphens in a row. For a title whose lower-cased form has no character of \<^verbatim>\<open>a-z\<close>, no
  digit \<^verbatim>\<open>0-9\<close>, no white space and no hyphen it returns the empty string, which
  \<^verbatim>\<open>surveySchema\<close> rejects. This holds whatever \<^verbatim>\<open>toLowerCase\<close> returns.
\<close>

theorem generateSlug_characters:
  "list_all slug_unit (generateSlug lc t)
   \<and> (\<exists>s. units s = generateSlug lc t \<and> list_all slug_char s)
   \<and> (\<forall>i. Suc i < length (generateSlug lc t) \<longrightarrow>
          \<not> (generateSlug lc t ! i = hyphen \<and> generateSlug lc t ! Suc i = hyphen))
   \<and> ((\<forall>u \<in> set (lc t). \<not> (97 \<le> u \<and> u \<le> 122) \<and> \<not> (48 \<le> u \<and> u \<le> 57)
          \<and> \<not> is_space u \<and> u \<noteq> hyphen)
        \<longrightarrow> generateSlug lc t = []
            \<and> (\<forall>s. units s = generateSlug lc t \<longrightarrow>
                  \<not> slug_regex s \<and> surveySchema (d\<lparr>f_slug := s\<rparr>) \<noteq> []))"
proof -
  have all: "\<forall>u \<in> set (generateSlug lc t). slug_unit u"
    using slug_before_trim[of lc t] by (simp add: generateSlug_untrimmed)
  then have chars: "list_all slug_unit (generateSlug lc t)"
    by (simp add: list_all_iff)
  have as_text: "\<exists>s. units s = generateSlug lc t \<and> list_all slug_char s"
    using slug_units_text[OF all] by blast
  have hyphens: "\<forall>i. Suc i < length (generateSlug lc t) \<longrightarrow>
          \<not> (generateSlug lc t ! i = hyphen \<and> generateSlug lc t ! Suc i = hyphen)"
  proof (intro allI impI)
    fix i
    assume len: "Suc i < length (generateSlug lc t)"
    have "no_double hyphen (generateSlug lc t)"
      unfolding generateSlug_untrimmed by (rule replace_runs_no_double) simp_all
    then show "\<not> (generateSlug lc t ! i = hyphen \<and> generateSlug lc t ! Suc i = hyphen)"
      using len by (rule no_double_nth)
  qed
  have empty: "(\<forall>u \<in> set (lc t). \<not> (97 \<le> u \<and> u \<le> 122) \<and> \<not> (48 \<le> u \<and> u \<le> 57)
          \<and> \<not> is_space u \<and> u \<noteq> hyphen)
        \<longrightarrow> generateSlug lc t = []
            \<and> (\<forall>s. units s = generateSlug lc t \<longrightarrow>
                  \<not> slug_regex s \<and> surveySchema (d\<lparr>f_slug := s\<rparr>) \<noteq> [])"
  proof
    assume none: "\<forall>u \<in> set (lc t). \<not> (97 \<le> u \<and> u \<le> 122) \<and> \<not> (48 \<le> u \<and> u \<le> 57)
          \<and> \<not> is_space u \<and> u \<noteq> hyphen"
    then have "\<forall>u \<in> set (lc t). \<not> kept_unit u"
      by (simp add: kept_unit_def)
    then have "filter kept_unit (lc t) = []"
      by (simp add: filter_empty_conv)
    then have slug: "generateSlug lc t = []"
      by (simp add: generateSlug_untrimmed)
    have "\<not> slug_regex s \<and> surveySchema (d\<lparr>f_slug := s\<rparr>) \<noteq> []"
      if "units s = generateSlug lc t" for s
    proof -
      from that slug have "s = []"
        by (simp add: units_def)
      then show ?thesis
        by (simp add: slug_regex_def surveySchema_def)
    qed
    with slug show "generateSlug lc t = []
            \<and> (\<forall>s. units s = generateSlug lc t \<longrightarrow>
                  \<not> slug_regex s \<and> surveySchema (d\<lparr>f_slug := s\<rparr>) \<noteq> [])"
      by blast
  qed
  show ?thesis
    by (intro conjI) (rule chars, rule as_text, rule hyphens, rule empty)
qed

theorem generateSlug_characters_witness:
  "generateSlug lower_case (units ''Hello,  World -- 2024!'') = units ''hello-world-2024''
   \<and> list_all slug_unit (units ''hello-world-2024'')
   \<and> generateSlug lower_case (units ''!?'') = []
   \<and> surveySchema \<lparr>f_title = ''!?'', f_description = None, f_slug = [],
        f_status = draft\<rparr> \<noteq> []"
proof -
  have hello: "generateSlug lower_case (units ''Hello,  World -- 2024!'') = units ''hello-world-2024''"
    by (simp add: slug_eval)
  have lowered: "lower_case (units ''!?'') = [33, 63]"
    by (simp add: slug_eval)
  have marks: "\<forall>u \<in> set (lower_case (units ''!?'')). \<not> (97 \<le> u \<and> u \<le> 122)
          \<and> \<not> (48 \<le> u \<and> u \<le> 57) \<and> \<not> is_space u \<and> u \<noteq> hyphen"
    unfolding lowered by (simp add: is_space_def hyphen_def)
  from generateSlug_characters[of lower_case "units ''Hello,  World -- 2024!''"]
  have chars: "list_all slug_unit (units ''hello-world-2024'')"
    unfolding hello by blast
  note w = generateSlug_characters[of lower_case "units ''!?''"
      "\<lparr>f_title = ''!?'', f_description = None, f_slug = [], f_status = draft\<rparr>"]
  from w marks have empty: "generateSlug lower_case (units ''!?'') = []"
    by blast
  from w marks have "\<forall>s. units s = generateSlug lower_case (units ''!?'') \<longrightarrow>
      surveySchema (\<lparr>f_title = ''!?'', f_description = None, f_slug = [], f_status = draft\<rparr>
            \<lparr>f_slug := s\<rparr>) \<noteq> []"
    by blast
  moreover have "units [] = generateSlug lower_case (units ''!?'')"
    unfolding empty by (simp add: units_def)
  ultimately have "surveySchema (\<lparr>f_title = ''!?'', f_description = None, f_slug = [],
        f_status = draft\<rparr>\<lparr>f_slug := []\<rparr>) \<noteq> []"
    by blast
  then have rejected: "surveySchema \<lparr>f_title = ''!?'', f_description = None, f_slug = [],
        f_status = draft\<rparr> \<noteq> []"
    by (simp only: survey_form.simps not_False_eq_True)
  show ?thesis
    by (intro conjI hello chars empty rejected)
qed

end
